theory Spec2Isabelle
  imports Main
begin

section \<open>JavaScript strings\<close>

text \<open>
  A JavaScript string is a sequence of 16-bit code units. A code unit is represented by
  its number, a natural number below 65536; no function below computes a code unit that
  leaves this range (the only arithmetic adds 32 to an upper-case ASCII letter, and the
  value of a decimal digit to the code unit of the digit zero). String literals of the
  source are written \<open>js ''...''\<close>; the two non-ASCII quotation marks of one lint message
  are given by their code units.
\<close>

type_synonym jschar = nat
type_synonym jsstring = "jschar list"

definition js :: "string \<Rightarrow> jsstring" where
  "js s = map of_char s"

text \<open>
  The code units that \<open>String.prototype.trim\<close> strips and that \<open>\s\<close> matches in a
  regular expression: ECMAScript's WhiteSpace and LineTerminator productions.
\<close>

definition isWhiteSpace :: "jschar \<Rightarrow> bool" where
  "isWhiteSpace c \<longleftrightarrow>
     c = 0x09 \<or> c = 0x0A \<or> c = 0x0B \<or> c = 0x0C \<or> c = 0x0D \<or> c = 0x20 \<or> c = 0xA0 \<or>
     c = 0x1680 \<or> (0x2000 \<le> c \<and> c \<le> 0x200A) \<or> c = 0x2028 \<or> c = 0x2029 \<or>
     c = 0x202F \<or> c = 0x205F \<or> c = 0x3000 \<or> c = 0xFEFF"

text \<open>The code units that \<open>.\<close> does not match in a regular expression.\<close>

definition isLineTerminator :: "jschar \<Rightarrow> bool" where
  "isLineTerminator c \<longleftrightarrow> c = 0x0A \<or> c = 0x0D \<or> c = 0x2028 \<or> c = 0x2029"

definition trim :: "jsstring \<Rightarrow> jsstring" where
  "trim s = rev (dropWhile isWhiteSpace (rev (dropWhile isWhiteSpace s)))"

definition startsWith :: "jsstring \<Rightarrow> jsstring \<Rightarrow> bool" where
  "startsWith s p \<longleftrightarrow> take (length p) s = p"

section \<open>Endpoint paths (service worker)\<close>

text \<open>
  \<^verbatim>\<open>
  function normalizePath(p) {
    let x = String(p || "").trim();
    if (!x) return "";
    if (!x.startsWith("/")) x = "/" + x;
    return x;
  }
  \<close>
\<close>

definition normalizePath :: "jsstring \<Rightarrow> jsstring" where
  "normalizePath p =
     (let x = trim p in
      if x = [] then []
      else if \<not> startsWith x (js ''/'') then js ''/'' @ x
      else x)"

section \<open>Further string operations\<close>

text \<open>
  \<open>toLowerCase\<close> on ASCII letters. The source applies \<open>toLowerCase\<close> only to field
  names, which the field grammar restricts to ASCII letters, digits and hyphens, where it
  agrees with the Unicode operation. The same map models the \<open>i\<close> flag of the regular
  expressions: without the \<open>u\<close> flag, a code unit outside ASCII never matches an ASCII
  letter of the pattern.
\<close>

definition isUpper :: "jschar \<Rightarrow> bool" where
  "isUpper c \<longleftrightarrow> 0x41 \<le> c \<and> c \<le> 0x5A"

definition isLower :: "jschar \<Rightarrow> bool" where
  "isLower c \<longleftrightarrow> 0x61 \<le> c \<and> c \<le> 0x7A"

definition isDigit :: "jschar \<Rightarrow> bool" where
  "isDigit c \<longleftrightarrow> 0x30 \<le> c \<and> c \<le> 0x39"

definition isAlpha :: "jschar \<Rightarrow> bool" where
  "isAlpha c \<longleftrightarrow> isUpper c \<or> isLower c"

definition isAlnum :: "jschar \<Rightarrow> bool" where
  "isAlnum c \<longleftrightarrow> isAlpha c \<or> isDigit c"

definition lowerAscii :: "jschar \<Rightarrow> jschar" where
  "lowerAscii c = (if isUpper c then c + 0x20 else c)"

definition toLowerCase :: "jsstring \<Rightarrow> jsstring" where
  "toLowerCase s = map lowerAscii s"

text \<open>\<open>s.split(sep)\<close> for a separator of one code unit: the empty string gives \<open>[""]\<close>.\<close>

fun split_on :: "jschar \<Rightarrow> jsstring \<Rightarrow> jsstring list" where
  "split_on sep [] = [[]]"
| "split_on sep (c # cs) =
     (if c = sep then [] # split_on sep cs
      else (case split_on sep cs of [] \<Rightarrow> [[c]] | l # ls \<Rightarrow> (c # l) # ls))"

text \<open>\<open>parts.join(sep)\<close>.\<close>

fun join :: "jsstring \<Rightarrow> jsstring list \<Rightarrow> jsstring" where
  "join sep [] = []"
| "join sep [x] = x"
| "join sep (x # y # ys) = x @ sep @ join sep (y # ys)"

text \<open>The decimal numeral of a non-negative integer, as a template literal prints it.\<close>

fun decimal :: "nat \<Rightarrow> jsstring" where
  "decimal n = (if n < 10 then [0x30 + of_nat n] else decimal (n div 10) @ [0x30 + of_nat (n mod 10)])"

section \<open>The platform\<close>

text \<open>
  The functions of the browser that the source calls and that are not code of the
  repository are parameters of the model: the date parser behind \<open>new Date(v)\<close> (the time
  value in milliseconds, \<open>None\<close> for an invalid date), \<open>Date.prototype.toISOString\<close>, and
  the \<open>URL\<close> constructor (\<open>None\<close> where it throws).
\<close>

record url_record =
  protocol :: jsstring
  hostname :: jsstring

record platform =
  Date_parse :: "jsstring \<Rightarrow> int option"
  toISOString :: "int \<Rightarrow> jsstring"
  URL_new :: "jsstring \<Rightarrow> url_record option"

datatype js_error = TypeError

section \<open>The manifest parser (popup)\<close>

record field_entry =
  name :: jsstring
  "values" :: "jsstring list"

type_synonym fields = "jsstring \<rightharpoonup> field_entry"

text \<open>
  \<open>text.split(/\r?\n/)\<close>: a line ends at a line feed, or at a carriage return that a line
  feed follows; a lone carriage return stays in its line.
\<close>

fun split_lines :: "jsstring \<Rightarrow> jsstring list" where
  "split_lines [] = [[]]"
| "split_lines [c] = (if c = 0x0A then [[], []] else [[c]])"
| "split_lines (c # d # cs) =
     (if c = 0x0A then [] # split_lines (d # cs)
      else if c = 0x0D \<and> d = 0x0A then [] # split_lines cs
      else (case split_lines (d # cs) of [] \<Rightarrow> [[c]] | l # ls \<Rightarrow> (c # l) # ls))"

definition isFieldNameChar :: "jschar \<Rightarrow> bool" where
  "isFieldNameChar c \<longleftrightarrow> isAlnum c \<or> c = 0x2D"

text \<open>
  \<open>/^([A-Za-z0-9-]+)\s*:\s*(.*)$/.exec(line)\<close>, giving the two groups. Neither white space
  nor the colon is a name character, so the first group is the longest run of name
  characters at the start. Every line terminator is white space, so the second group
  starts after all the white space that follows the colon, and the match fails when a
  line terminator remains after that (the dot does not match one, and \<open>$\<close> is the end of
  the input).
\<close>

definition field_match :: "jsstring \<Rightarrow> (jsstring \<times> jsstring) option" where
  "field_match line =
     (let nm = takeWhile isFieldNameChar line in
      if nm = [] then None
      else (case dropWhile isWhiteSpace (dropWhile isFieldNameChar line) of
        [] \<Rightarrow> None
      | c # rest \<Rightarrow>
          if c \<noteq> 0x3A then None
          else (let v = dropWhile isWhiteSpace rest in
                if list_ex isLineTerminator v then None else Some (nm, v))))"

text \<open>
  The field map is a plain object, so \<open>fields[key]\<close> also finds the properties that the
  object inherits from \<open>Object.prototype\<close>. These are their names.
\<close>

definition Object_prototype_keys :: "jsstring list" where
  "Object_prototype_keys =
     [js ''constructor'', js ''__defineGetter__'', js ''__defineSetter__'',
      js ''hasOwnProperty'', js ''__lookupGetter__'', js ''__lookupSetter__'',
      js ''isPrototypeOf'', js ''propertyIsEnumerable'', js ''toString'', js ''valueOf'',
      js ''__proto__'', js ''toLocaleString'']"

text \<open>
  \<^verbatim>\<open>
  if (!fields[key]) fields[key] = { name, values: [] };
  fields[key].values.push(value);
  \<close>
  An inherited property is truthy and has no array under \<open>values\<close>: the call of \<open>push\<close>
  throws a TypeError.
\<close>

definition push_value :: "fields \<Rightarrow> jsstring \<Rightarrow> jsstring \<Rightarrow> jsstring \<Rightarrow> js_error + fields" where
  "push_value fs key nm v =
     (case fs key of
        Some e \<Rightarrow> Inr (fs(key \<mapsto> e\<lparr>values := values e @ [v]\<rparr>))
      | None \<Rightarrow>
          if key \<in> set Object_prototype_keys then Inl TypeError
          else Inr (fs(key \<mapsto> \<lparr>name = nm, values = [v]\<rparr>)))"

text \<open>The body of the loop of \<open>parseSecurityTxt\<close>, for one raw line.\<close>

definition parse_line :: "fields \<Rightarrow> jsstring \<Rightarrow> js_error + fields" where
  "parse_line fs line0 =
     (let line = trim line0 in
      if line = [] then Inr fs
      else if startsWith line (js ''#'') then Inr fs
      else (case field_match line of
        None \<Rightarrow> push_value fs (js ''__unparsed'') (js ''__unparsed'') line0
      | Some (nm, v) \<Rightarrow> push_value fs (toLowerCase nm) nm v))"

fun parse_lines :: "fields \<Rightarrow> jsstring list \<Rightarrow> js_error + fields" where
  "parse_lines fs [] = Inr fs"
| "parse_lines fs (line0 # rawLines) =
     (case parse_line fs line0 of
        Inl e \<Rightarrow> Inl e
      | Inr fs' \<Rightarrow> parse_lines fs' rawLines)"

definition parseSecurityTxt :: "jsstring \<Rightarrow> js_error + fields" where
  "parseSecurityTxt txt = parse_lines Map.empty (split_lines txt)"

section \<open>The lint engine (popup)\<close>

datatype level = LevelWarn | LevelFail

datatype verdict = VerdictOk | VerdictWarn | VerdictFail

record issue =
  level :: level
  msg :: jsstring

record report =
  verdict :: verdict
  score :: int
  issues :: "issue list"

text \<open>
  \<^verbatim>\<open>
  function looksLikeUrlOrMailto(v) {
    const s = String(v || "").trim();
    if (!s) return false;
    if (/^mailto:/i.test(s)) return true;
    try {
      const u = new URL(s);
      return u.protocol === "https:" || u.protocol === "http:";
    } catch {
      return false;
    }
  }
  \<close>
\<close>

definition looksLikeUrlOrMailto :: "platform \<Rightarrow> jsstring \<Rightarrow> bool" where
  "looksLikeUrlOrMailto pf v =
     (let s = trim v in
      if s = [] then False
      else if startsWith (map lowerAscii s) (js ''mailto:'') then True
      else (case URL_new pf s of
        None \<Rightarrow> False
      | Some u \<Rightarrow> protocol u = js ''https:'' \<or> protocol u = js ''http:''))"

text \<open>
  \<^verbatim>\<open>
  function parseRfc3339Date(s) {
    const v = String(s || "").trim();
    if (!v) return null;
    const d = new Date(v);
    if (Number.isNaN(d.getTime())) return null;
    return d;
  }
  \<close>
  The date is represented by its time value.
\<close>

definition parseRfc3339Date :: "platform \<Rightarrow> jsstring \<Rightarrow> int option" where
  "parseRfc3339Date pf s = (let v = trim s in if v = [] then None else Date_parse pf v)"

text \<open>\<open>fields[key]?.values || []\<close>, for a key that \<open>Object.prototype\<close> does not have.\<close>

definition values_of :: "fields \<Rightarrow> jsstring \<Rightarrow> jsstring list" where
  "values_of fs key = (case fs key of None \<Rightarrow> [] | Some e \<Rightarrow> values e)"

text \<open>
  \<open>/^[A-Za-z]{1,8}(-[A-Za-z0-9]{1,8})*$/.test(tag)\<close>: the hyphen is in neither class, so the
  tag matches when its hyphen-separated parts do.
\<close>

definition isLanguageTag :: "jsstring \<Rightarrow> bool" where
  "isLanguageTag tag =
     (case split_on 0x2D tag of
        [] \<Rightarrow> False
      | p # ps \<Rightarrow>
          (1 \<le> length p \<and> length p \<le> 8 \<and> list_all isAlpha p)
          \<and> list_all (\<lambda>q. 1 \<le> length q \<and> length q \<le> 8 \<and> list_all isAlnum q) ps)"

text \<open>
  The function \<open>lint\<close> runs its rules in sequence on the two variables \<open>score\<close> and
  \<open>issues\<close>. Each rule is a function on that pair; \<open>issues.push\<close> appends.
\<close>

type_synonym lint_state = "int \<times> issue list"

definition push_issue :: "level \<Rightarrow> jsstring \<Rightarrow> int \<Rightarrow> lint_state \<Rightarrow> lint_state" where
  "push_issue lv m penalty st = (fst st - penalty, snd st @ [\<lparr>level = lv, msg = m\<rparr>])"

definition rule_contact :: "platform \<Rightarrow> jsstring list \<Rightarrow> lint_state \<Rightarrow> lint_state" where
  "rule_contact pf contacts st =
     (if length contacts = 0 then
        push_issue LevelFail
          (js ''Missing Contact: field (provide at least one security contact).'') 60 st
      else (let bad = filter (\<lambda>c. \<not> looksLikeUrlOrMailto pf c) contacts in
        if length bad \<noteq> 0 then
          push_issue LevelWarn
            (js ''Contact: has '' @ decimal (length bad)
              @ js '' value(s) that do not look like a URL or mailto.'') 15 st
        else st))"

definition rule_expires :: "platform \<Rightarrow> int \<Rightarrow> jsstring list \<Rightarrow> lint_state \<Rightarrow> lint_state" where
  "rule_expires pf now expires st =
     (case expires of
        [] \<Rightarrow> push_issue LevelWarn (js ''Missing Expires: field (recommended).'') 10 st
      | e0 # _ \<Rightarrow>
          (case parseRfc3339Date pf e0 of
             None \<Rightarrow>
               push_issue LevelWarn
                 (js ''Expires: present but not parseable as a date/time.'') 10 st
           | Some d \<Rightarrow>
               if d < now then
                 push_issue LevelFail
                   (js ''Expires: is in the past ('' @ toISOString pf d @ js '').'') 35 st
               else st))"

definition rule_policy :: "platform \<Rightarrow> jsstring list \<Rightarrow> lint_state \<Rightarrow> lint_state" where
  "rule_policy pf policy st =
     (if length policy = 0 then
        push_issue LevelWarn
          (js ''Missing Policy: field (recommended; points to disclosure policy).'') 5 st
      else (let bad = filter (\<lambda>p. \<not> looksLikeUrlOrMailto pf p) policy in
        if length bad \<noteq> 0 then
          push_issue LevelWarn (js ''Policy: value(s) should usually be a URL.'') 5 st
        else st))"

definition rule_prefLang :: "jsstring list \<Rightarrow> lint_state \<Rightarrow> lint_state" where
  "rule_prefLang prefLang st =
     (if length prefLang \<noteq> 0 then
        (let bad = filter (\<lambda>tag. \<not> isLanguageTag tag)
                     (filter (\<lambda>x. x \<noteq> [])
                       (map trim (concat (map (split_on 0x2C) prefLang)))) in
         if length bad \<noteq> 0 then
           push_issue LevelWarn
             (js ''Preferred-Languages: contains suspicious tag(s): '' @ join (js '', '') bad) 3 st
         else st)
      else st)"

definition rule_bonus :: "jsstring list \<Rightarrow> jsstring list \<Rightarrow> jsstring list \<Rightarrow> lint_state \<Rightarrow> lint_state" where
  "rule_bonus encryption acknowledgments hiring st =
     (let bonusCount = length (filter (\<lambda>a. length a > 0) [encryption, acknowledgments, hiring])
      in (fst st + min 6 (int bonusCount * 2), snd st))"

definition rule_unparsed :: "fields \<Rightarrow> lint_state \<Rightarrow> lint_state" where
  "rule_unparsed fs st =
     (let n = length (values_of fs (js ''__unparsed'')) in
      if n \<noteq> 0 then
        push_issue LevelWarn
          (js ''Found '' @ decimal n @ js '' non '' @ [0x201C] @ js ''Field: value'' @ [0x201D]
            @ js '' line(s).'') 5 st
      else st)"

definition derive_verdict :: "issue list \<Rightarrow> verdict" where
  "derive_verdict is =
     (if list_ex (\<lambda>i. level i = LevelFail) is then VerdictFail
      else if list_ex (\<lambda>i. level i = LevelWarn) is then VerdictWarn
      else VerdictOk)"

text \<open>
  \<open>lint(fields)\<close>, with the platform and the value of \<open>Date.now()\<close> as parameters.
\<close>

definition lint :: "platform \<Rightarrow> int \<Rightarrow> fields \<Rightarrow> report" where
  "lint pf now fs =
     (let contacts = values_of fs (js ''contact'');
          expires = values_of fs (js ''expires'');
          policy = values_of fs (js ''policy'');
          prefLang = values_of fs (js ''preferred-languages'');
          encryption = values_of fs (js ''encryption'');
          acknowledgments = values_of fs (js ''acknowledgments'');
          hiring = values_of fs (js ''hiring'');
          st = rule_unparsed fs
                (rule_bonus encryption acknowledgments hiring
                  (rule_prefLang prefLang
                    (rule_policy pf policy
                      (rule_expires pf now expires
                        (rule_contact pf contacts (100, []))))))
      in \<lparr>verdict = derive_verdict (snd st),
          score = max 0 (min 100 (fst st)),
          issues = snd st\<rparr>)"

section \<open>Candidate URLs (service worker)\<close>

definition DEFAULT_ENDPOINTS :: "jsstring list" where
  "DEFAULT_ENDPOINTS = [js ''/.well-known/security.txt'', js ''/security.txt'']"

definition MULTIPART_SUFFIXES :: "jsstring list" where
  "MULTIPART_SUFFIXES =
     [js ''co.uk'', js ''org.uk'', js ''ac.uk'', js ''gov.uk'',
      js ''com.au'', js ''net.au'', js ''org.au'',
      js ''co.nz'', js ''org.nz'',
      js ''co.jp'', js ''ne.jp'', js ''or.jp'',
      js ''com.br'', js ''com.mx'',
      js ''co.za'',
      js ''com.sg'',
      js ''co.in'', js ''net.in'', js ''org.in'',
      js ''com.tr'',
      js ''com.ar'']"

text \<open>\<open>parts.slice(-n)\<close>: the last \<open>n\<close> elements, all of them when there are fewer.\<close>

definition slice_last :: "nat \<Rightarrow> 'a list \<Rightarrow> 'a list" where
  "slice_last n xs = drop (length xs - n) xs"

text \<open>
  \<^verbatim>\<open>
  function guessRegistrableDomain(hostname) {
    const parts = hostname.split(".").filter(Boolean);
    if (parts.length <= 2) return hostname;
    const last2 = parts.slice(-2).join(".");
    const last3 = parts.slice(-3).join(".");
    if (MULTIPART_SUFFIXES.has(last2) && parts.length >= 3) {
      return parts.slice(-3).join(".");
    }
    return parts.slice(-2).join(".");
  }
  \<close>
\<close>

definition guessRegistrableDomain :: "jsstring \<Rightarrow> jsstring" where
  "guessRegistrableDomain hostnm =
     (let parts = filter (\<lambda>x. x \<noteq> []) (split_on 0x2E hostnm) in
      if length parts \<le> 2 then hostnm
      else (let last2 = join (js ''.'') (slice_last 2 parts) in
        if last2 \<in> set MULTIPART_SUFFIXES \<and> length parts \<ge> 3
        then join (js ''.'') (slice_last 3 parts)
        else join (js ''.'') (slice_last 2 parts)))"

text \<open>\<open>[...new Set(xs)]\<close>: the first occurrence of every element, in order.\<close>

definition uniq :: "'a list \<Rightarrow> 'a list" where
  "uniq xs = rev (remdups (rev xs))"

text \<open>\<open>/security\.txt$/i\<close> matches the last twelve code units of \<open>s\<close>.\<close>

definition ends_security_txt :: "jsstring \<Rightarrow> bool" where
  "ends_security_txt s \<longleftrightarrow>
     12 \<le> length s \<and> map lowerAscii (drop (length s - 12) s) = js ''security.txt''"

text \<open>\<open>s.replace(/security\.txt$/i, r)\<close>; without a match the string is unchanged.\<close>

definition replace_security_txt :: "jsstring \<Rightarrow> jsstring \<Rightarrow> jsstring" where
  "replace_security_txt s r =
     (if ends_security_txt s then take (length s - 12) s @ r else s)"

text \<open>
  \<^verbatim>\<open>
  function expandCaseVariantsForEndpoint(ep) {
    const m = /(\/)(security\.txt)$/i.exec(ep);
    if (!m) return [ep];
    const base = ep.replace(/security\.txt$/i, "security.txt");
    const variants = [
      base,
      base.replace(/security\.txt$/i, "Security.txt"),
      base.replace(/security\.txt$/i, "security.TXT"),
      base.replace(/security\.txt$/i, "SECURITY.TXT")
    ];
    return [...new Set(variants)];
  }
  \<close>
\<close>

definition expandCaseVariantsForEndpoint :: "jsstring \<Rightarrow> jsstring list" where
  "expandCaseVariantsForEndpoint ep =
     (if \<not> (13 \<le> length ep
             \<and> map lowerAscii (drop (length ep - 13) ep) = js ''/security.txt'')
      then [ep]
      else (let base = replace_security_txt ep (js ''security.txt'');
                variants =
                  [base,
                   replace_security_txt base (js ''Security.txt''),
                   replace_security_txt base (js ''security.TXT''),
                   replace_security_txt base (js ''SECURITY.TXT'')]
            in uniq variants))"

text \<open>
  \<^verbatim>\<open>
  function buildCandidateUrlsForHost(host, endpoints, tryHttpFallback) {
    const expandedEndpoints = endpoints
      .flatMap(expandCaseVariantsForEndpoint)
      .map(normalizePath)
      .filter(Boolean);
    const https = expandedEndpoints.map((ep) => `https://${host}${ep}`);
    if (!tryHttpFallback) return https;
    const http = expandedEndpoints.map((ep) => `http://${host}${ep}`);
    return [...https, ...http];
  }
  \<close>
\<close>

definition buildCandidateUrlsForHost :: "jsstring \<Rightarrow> jsstring list \<Rightarrow> bool \<Rightarrow> jsstring list" where
  "buildCandidateUrlsForHost h endpoints tryHttp =
     (let expandedEndpoints =
            filter (\<lambda>x. x \<noteq> [])
              (map normalizePath (concat (map expandCaseVariantsForEndpoint endpoints)));
          https = map (\<lambda>ep. js ''https://'' @ h @ ep) expandedEndpoints
      in if \<not> tryHttp then https
         else https @ map (\<lambda>ep. js ''http://'' @ h @ ep) expandedEndpoints)"

text \<open>\<open>const hostsToTry = host === apex ? [host] : [host, apex];\<close>\<close>

definition hostsToTry :: "jsstring \<Rightarrow> jsstring list" where
  "hostsToTry h = (let apex = guessRegistrableDomain h in if h = apex then [h] else [h, apex])"

section \<open>The prober and the tab cache (service worker)\<close>

text \<open>
  What one \<open>fetch\<close> call gives: a rejection with the message of the thrown value, or a
  response. Reading the body of a response can throw as well (\<open>Inl\<close> with the message).
\<close>

record response =
  res_status :: nat
  res_statusText :: jsstring
  res_contentType :: "jsstring option"
  res_ok :: bool
  res_text :: "jsstring + jsstring"

datatype fetch_outcome = Rejected jsstring | Resolved response

record attempt =
  url :: jsstring
  ok :: bool
  status :: "nat option"
  statusText :: "jsstring option"
  contentType :: "jsstring option"
  error :: "jsstring option"

record meta = attempt +
  "text" :: "jsstring option"

datatype host_mode = ModeHost | ModeApex

text \<open>
  The object that \<open>probeSecurityTxt\<close> returns, and the cache entry that \<open>checkTab\<close>
  builds from it by adding keys. A key that an object does not have is \<open>None\<close>.
\<close>

record probe_result =
  found :: bool
  foundUrl :: "jsstring option"
  status :: "nat option"
  contentType :: "jsstring option"
  "text" :: "jsstring option"
  attempts :: "attempt list"
  checkedHost :: "jsstring option"
  checkedHostMode :: "host_mode option"

record payload = probe_result +
  tabUrl :: "jsstring option"
  checkedAt :: int
  error :: "jsstring option"

text \<open>
  \<open>chrome.storage.sync\<close>: the value under \<open>extraEndpoints\<close> when it is an array (of
  strings, as the options page stores it), and the truth value of \<open>tryHttpFallback\<close>.
\<close>

record sync_storage =
  stored_extraEndpoints :: "jsstring list option"
  stored_tryHttpFallback :: bool

record settings =
  extraEndpoints :: "jsstring list"
  tryHttpFallback :: bool

text \<open>
  The state outside the functions: the network (what the \<open>n\<close>-th request of the run
  receives for a URL) with the log of the URLs requested so far, the two storage areas,
  the badge of every tab, and the clock. Every request settles: a request that hangs
  forever, which the source does not guard against by a timeout, is outside the model.
\<close>

record world =
  network :: "nat \<Rightarrow> jsstring \<Rightarrow> fetch_outcome"
  requests :: "jsstring list"
  sync :: sync_storage
  session :: "jsstring \<rightharpoonup> payload"
  badgeText :: "nat \<rightharpoonup> jsstring"
  badgeBackgroundColor :: "nat \<rightharpoonup> jsstring"
  clock :: int

definition getSettings :: "world \<Rightarrow> settings" where
  "getSettings w =
     (let extra = (case stored_extraEndpoints (sync w) of None \<Rightarrow> [] | Some xs \<Rightarrow> xs) in
      \<lparr>extraEndpoints = filter (\<lambda>x. x \<noteq> []) (map normalizePath extra),
       tryHttpFallback = stored_tryHttpFallback (sync w)\<rparr>)"

definition isHttpUrl :: "platform \<Rightarrow> jsstring \<Rightarrow> bool" where
  "isHttpUrl pf u =
     (case URL_new pf u of
        None \<Rightarrow> False
      | Some r \<Rightarrow> protocol r = js ''http:'' \<or> protocol r = js ''https:'')"

definition fetch :: "world \<Rightarrow> jsstring \<Rightarrow> fetch_outcome \<times> world" where
  "fetch w u = (network w (length (requests w)) u, w\<lparr>requests := requests w @ [u]\<rparr>)"

text \<open>
  \<^verbatim>\<open>
  async function fetchWithMeta(url) {
    const meta = { url, ok: false, status: null, statusText: null,
                   contentType: null, error: null, text: null };
    try {
      const res = await fetch(url, { method: "GET", redirect: "follow", cache: "no-store" });
      meta.status = res.status;
      meta.statusText = res.statusText;
      const ct = res.headers.get("content-type");
      meta.contentType = ct || null;
      if (res.ok) {
        meta.ok = true;
        meta.text = await res.text();
      }
    } catch (e) {
      meta.error = String(e?.message || e);
    }
    return meta;
  }
  \<close>
\<close>

definition fetchWithMeta :: "world \<Rightarrow> jsstring \<Rightarrow> meta \<times> world" where
  "fetchWithMeta w u =
     (let m0 = \<lparr>url = u, ok = False, attempt.status = None, statusText = None,
                attempt.contentType = None, attempt.error = None, meta.text = None\<rparr>;
          (outcome, w') = fetch w u
      in (case outcome of
            Rejected e \<Rightarrow> (m0\<lparr>attempt.error := Some e\<rparr>, w')
          | Resolved res \<Rightarrow>
              (let m1 = m0\<lparr>attempt.status := Some (res_status res),
                           statusText := Some (res_statusText res),
                           attempt.contentType :=
                             (case res_contentType res of
                                None \<Rightarrow> None
                              | Some ct \<Rightarrow> if ct = [] then None else Some ct)\<rparr>
               in if res_ok res then
                    (case res_text res of
                       Inr t \<Rightarrow> (m1\<lparr>ok := True, meta.text := Some t\<rparr>, w')
                     | Inl e \<Rightarrow> (m1\<lparr>ok := True, attempt.error := Some e\<rparr>, w'))
                  else (m1, w'))))"

text \<open>
  The inner loop of \<open>probeSecurityTxt\<close> over the candidates of one host. It returns the
  successful \<open>meta\<close> where the source returns from the function, and \<open>None\<close> where the
  loop runs to its end.
\<close>

fun try_candidates :: "world \<Rightarrow> attempt list \<Rightarrow> jsstring list \<Rightarrow> meta option \<times> attempt list \<times> world" where
  "try_candidates w atts [] = (None, atts, w)"
| "try_candidates w atts (u # candidates) =
     (let (m, w') = fetchWithMeta w u;
          atts' = atts @ [attempt.truncate m]
      in if ok m then (Some m, atts', w') else try_candidates w' atts' candidates)"

text \<open>The outer loop over \<open>hostsToTry\<close>, and the two \<open>return\<close> statements.\<close>

fun try_hosts :: "jsstring \<Rightarrow> jsstring list \<Rightarrow> bool \<Rightarrow> world \<Rightarrow> attempt list \<Rightarrow> jsstring list \<Rightarrow> probe_result \<times> world" where
  "try_hosts host endpoints tryHttp w atts [] =
     (\<lparr>found = False, foundUrl = None, status = None, contentType = None, text = None,
       attempts = atts, checkedHost = Some host, checkedHostMode = Some ModeHost\<rparr>, w)"
| "try_hosts host endpoints tryHttp w atts (h # hs) =
     (case try_candidates w atts (buildCandidateUrlsForHost h endpoints tryHttp) of
        (Some m, atts', w') \<Rightarrow>
          (\<lparr>found = True, foundUrl = Some (url m), status = attempt.status m,
            contentType = attempt.contentType m, text = meta.text m,
            attempts = atts', checkedHost = Some h,
            checkedHostMode = Some (if h = host then ModeHost else ModeApex)\<rparr>, w')
      | (None, atts', w') \<Rightarrow> try_hosts host endpoints tryHttp w' atts' hs)"

text \<open>
  \<open>[...DEFAULT_ENDPOINTS, ...settings.extraEndpoints].map(normalizePath).filter(Boolean)\<close>
\<close>

definition probe_endpoints :: "settings \<Rightarrow> jsstring list" where
  "probe_endpoints st =
     filter (\<lambda>x. x \<noteq> []) (map normalizePath (DEFAULT_ENDPOINTS @ extraEndpoints st))"

text \<open>
  \<open>probeSecurityTxt(tabUrl)\<close>. The \<open>URL\<close> constructor throws a TypeError on a string that
  is not a URL.
\<close>

definition probeSecurityTxt :: "platform \<Rightarrow> world \<Rightarrow> jsstring \<Rightarrow> js_error + probe_result \<times> world" where
  "probeSecurityTxt pf w tabUrl0 =
     (let st = getSettings w;
          endpoints = probe_endpoints st
      in (case URL_new pf tabUrl0 of
            None \<Rightarrow> Inl TypeError
          | Some u \<Rightarrow>
              Inr (try_hosts (hostname u) endpoints (tryHttpFallback st) w []
                     (hostsToTry (hostname u)))))"

text \<open>The candidates of a probe, in the order of the two loops.\<close>

definition all_candidates :: "settings \<Rightarrow> jsstring \<Rightarrow> jsstring list" where
  "all_candidates st h =
     concat (map (\<lambda>x. buildCandidateUrlsForHost x (probe_endpoints st) (tryHttpFallback st))
       (hostsToTry h))"

text \<open>
  \<^verbatim>\<open>
  function quickLintState(text) {
    if (!text) return "warn";
    const hasContact = /^contact\s*:/im.test(text);
    return hasContact ? "ok" : "warn";
  }
  \<close>
  With the \<open>m\<close> flag, \<open>^\<close> matches at the start of the text and after every line
  terminator.
\<close>

datatype badge_state = Checking | BadgeOk | BadgeWarn | BadgeNo

definition contact_at :: "jsstring \<Rightarrow> bool" where
  "contact_at s \<longleftrightarrow>
     startsWith (map lowerAscii s) (js ''contact'')
     \<and> (case dropWhile isWhiteSpace (drop 7 s) of [] \<Rightarrow> False | c # _ \<Rightarrow> c = 0x3A)"

fun after_terminators :: "jsstring \<Rightarrow> jsstring list" where
  "after_terminators [] = []"
| "after_terminators (c # cs) =
     (if isLineTerminator c then cs # after_terminators cs else after_terminators cs)"

definition quickLintState :: "jsstring option \<Rightarrow> badge_state" where
  "quickLintState t =
     (case t of
        None \<Rightarrow> BadgeWarn
      | Some s \<Rightarrow>
          if s = [] then BadgeWarn
          else if list_ex contact_at (s # after_terminators s) then BadgeOk
          else BadgeWarn)"

text \<open>
  \<open>setBadge(tabId, state)\<close>: the badge text and colour of the four states; the last two
  lines of the source serve \<open>"checking"\<close>.
\<close>

definition setBadge :: "world \<Rightarrow> nat \<Rightarrow> badge_state \<Rightarrow> world" where
  "setBadge w tabId st =
     (case st of
        BadgeOk \<Rightarrow> w\<lparr>badgeText := (badgeText w)(tabId \<mapsto> js ''OK''),
                     badgeBackgroundColor := (badgeBackgroundColor w)(tabId \<mapsto> js ''#2e7d32'')\<rparr>
      | BadgeWarn \<Rightarrow> w\<lparr>badgeText := (badgeText w)(tabId \<mapsto> js ''!''),
                     badgeBackgroundColor := (badgeBackgroundColor w)(tabId \<mapsto> js ''#f9a825'')\<rparr>
      | BadgeNo \<Rightarrow> w\<lparr>badgeText := (badgeText w)(tabId \<mapsto> js ''NO''),
                     badgeBackgroundColor := (badgeBackgroundColor w)(tabId \<mapsto> js ''#b71c1c'')\<rparr>
      | Checking \<Rightarrow> w\<lparr>badgeText := (badgeText w)(tabId \<mapsto> js ''?''),
                     badgeBackgroundColor := (badgeBackgroundColor w)(tabId \<mapsto> js ''#616161'')\<rparr>)"

definition TAB_CACHE_KEY_PREFIX :: jsstring where
  "TAB_CACHE_KEY_PREFIX = js ''tabResult:''"

definition cacheTabResult :: "world \<Rightarrow> nat \<Rightarrow> payload \<Rightarrow> world" where
  "cacheTabResult w tabId p =
     w\<lparr>session := (session w)(TAB_CACHE_KEY_PREFIX @ decimal tabId \<mapsto> p)\<rparr>"

definition getCachedTabResult :: "world \<Rightarrow> nat \<Rightarrow> payload option" where
  "getCachedTabResult w tabId = session w (TAB_CACHE_KEY_PREFIX @ decimal tabId)"

text \<open>The cache entry of a tab whose URL is absent or not an http(s) URL.\<close>

definition not_applicable :: "jsstring option \<Rightarrow> int \<Rightarrow> payload" where
  "not_applicable tabUrl0 t =
     \<lparr>found = False, foundUrl = None, status = None, contentType = None, text = None,
      attempts = [], checkedHost = None, checkedHostMode = None,
      tabUrl = (if tabUrl0 = Some [] then None else tabUrl0), checkedAt = t,
      error = Some (js ''Not an http(s) URL'')\<rparr>"

text \<open>
  \<open>checkTab(tabId, tabUrl)\<close>; \<open>!tabUrl\<close> holds for an absent and for an empty URL.
\<close>

definition checkTab :: "platform \<Rightarrow> world \<Rightarrow> nat \<Rightarrow> jsstring option \<Rightarrow> js_error + world" where
  "checkTab pf w tabId tabUrl0 =
     (let na = (let w1 = setBadge w tabId Checking;
                    w2 = cacheTabResult w1 tabId (not_applicable tabUrl0 (clock w1))
                in Inr (setBadge w2 tabId BadgeNo))
      in case tabUrl0 of
           None \<Rightarrow> na
         | Some u \<Rightarrow>
             if u = [] \<or> \<not> isHttpUrl pf u then na
             else
               (let w1 = setBadge w tabId Checking in
                case probeSecurityTxt pf w1 u of
                  Inl e \<Rightarrow> Inl e
                | Inr (result, w2) \<Rightarrow>
                    (let p = probe_result.extend result
                               \<lparr>tabUrl = tabUrl0, checkedAt = clock w2, error = None\<rparr>;
                         w3 = cacheTabResult w2 tabId p
                     in if \<not> found result then Inr (setBadge w3 tabId BadgeNo)
                        else Inr (setBadge w3 tabId
                               (if quickLintState (probe_result.text result) = BadgeOk
                                then BadgeOk else BadgeWarn)))))"

text \<open>
  \<open>renderAll\<close> of the popup parses the text of a found manifest and lints the field map:
  \<open>const fields = parseSecurityTxt(text); const report = lint(fields);\<close>
\<close>

definition parse_and_lint :: "platform \<Rightarrow> int \<Rightarrow> jsstring \<Rightarrow> js_error + report" where
  "parse_and_lint pf now txt =
     (case parseSecurityTxt txt of Inl e \<Rightarrow> Inl e | Inr fs \<Rightarrow> Inr (lint pf now fs))"

section \<open>Notions of the specification\<close>

text \<open>The keys of the field map that \<open>lint\<close> reads.\<close>

definition lint_keys :: "jsstring list" where
  "lint_keys =
     [js ''contact'', js ''expires'', js ''policy'', js ''preferred-languages'',
      js ''encryption'', js ''acknowledgments'', js ''hiring'', js ''__unparsed'']"

text \<open>
  The raw lines of a text that are neither blank nor comments and do not match the field
  grammar.
\<close>

definition is_unparsed :: "jsstring \<Rightarrow> bool" where
  "is_unparsed line0 \<longleftrightarrow>
     trim line0 \<noteq> [] \<and> \<not> startsWith (trim line0) (js ''#'') \<and> field_match (trim line0) = None"

definition unparsed_lines :: "jsstring \<Rightarrow> jsstring list" where
  "unparsed_lines txt = filter is_unparsed (split_lines txt)"

text \<open>
  The paths that the two built-in endpoints expand to: four case variants of each, the
  well-known path first.
\<close>

definition default_paths :: "jsstring list" where
  "default_paths =
     [js ''/.well-known/security.txt'', js ''/.well-known/Security.txt'',
      js ''/.well-known/security.TXT'', js ''/.well-known/SECURITY.TXT'',
      js ''/security.txt'', js ''/Security.txt'', js ''/security.TXT'', js ''/SECURITY.TXT'']"

section \<open>Sample inputs\<close>

text \<open>
  A platform that agrees with a browser on the strings used in the examples below: the two
  timestamps are the time values of the two ISO dates, and the three URLs parse.
\<close>

definition sample_platform :: platform where
  "sample_platform =
     \<lparr>Date_parse = (\<lambda>s. if s = js ''2000-01-01T00:00:00Z'' then Some 946684800000
                         else if s = js ''2099-01-01T00:00:00Z'' then Some 4070908800000
                         else None),
      toISOString = (\<lambda>t. if t = 946684800000 then js ''2000-01-01T00:00:00.000Z''
                          else if t = 4070908800000 then js ''2099-01-01T00:00:00.000Z''
                          else []),
      URL_new = (\<lambda>s. if s = js ''https://example.com/policy''
                        then Some \<lparr>protocol = js ''https:'', hostname = js ''example.com''\<rparr>
                      else if s = js ''https://www.example.co.uk/''
                        then Some \<lparr>protocol = js ''https:'', hostname = js ''www.example.co.uk''\<rparr>
                      else if s = js ''https://example.com/''
                        then Some \<lparr>protocol = js ''https:'', hostname = js ''example.com''\<rparr>
                      else None)\<rparr>"

text \<open>The time value of 2026-11-03T00:00:00Z.\<close>

definition sample_now :: int where
  "sample_now = 1793664000000"

text \<open>
  A field map without Contact, with an Expires date in the future, a Policy URL and the
  three optional fields that earn the bonus.
\<close>

definition sample_fields :: fields where
  "sample_fields =
     [js ''expires'' \<mapsto> \<lparr>name = js ''Expires'', values = [js ''2099-01-01T00:00:00Z'']\<rparr>,
      js ''policy'' \<mapsto> \<lparr>name = js ''Policy'', values = [js ''https://example.com/policy'']\<rparr>,
      js ''encryption'' \<mapsto> \<lparr>name = js ''Encryption'', values = [js ''https://example.com/key'']\<rparr>,
      js ''acknowledgments'' \<mapsto> \<lparr>name = js ''Acknowledgments'', values = [js ''https://example.com/thanks'']\<rparr>,
      js ''hiring'' \<mapsto> \<lparr>name = js ''Hiring'', values = [js ''https://example.com/jobs'']\<rparr>]"

text \<open>A manifest text of two lines: one that is not a field, and one field.\<close>

definition sample_text :: jsstring where
  "sample_text = js ''hello world'' @ [0x0A] @ js ''A: 1''"

text \<open>A network on which every request fails, and one on which every request succeeds.\<close>

definition dead_network :: "nat \<Rightarrow> jsstring \<Rightarrow> fetch_outcome" where
  "dead_network n u = Rejected (js ''Failed to fetch'')"

definition live_network :: "nat \<Rightarrow> jsstring \<Rightarrow> fetch_outcome" where
  "live_network n u =
     Resolved \<lparr>res_status = 200, res_statusText = js ''OK'',
               res_contentType = Some (js ''text/plain''), res_ok = True,
               res_text = Inr (js ''Contact: mailto:security@example.com'')\<rparr>"

definition sample_world :: "(nat \<Rightarrow> jsstring \<Rightarrow> fetch_outcome) \<Rightarrow> world" where
  "sample_world net =
     \<lparr>network = net, requests = [],
      sync = \<lparr>stored_extraEndpoints = None, stored_tryHttpFallback = False\<rparr>,
      session = Map.empty, badgeText = Map.empty, badgeBackgroundColor = Map.empty,
      clock = sample_now\<rparr>"

section \<open>Properties of trimming and of path normalisation\<close>

lemma dropWhile_all_iff: "(\<forall>x\<in>set (dropWhile P s). P x) \<longleftrightarrow> (\<forall>x\<in>set s. P x)"
proof (cases "dropWhile P s = []")
  case True
  then show ?thesis
    by (auto simp: dropWhile_eq_Nil_conv dest: set_dropWhileD)
next
  case False
  then have "\<not> P (hd (dropWhile P s))" and "hd (dropWhile P s) \<in> set (dropWhile P s)"
    by (simp_all add: hd_dropWhile)
  moreover from False have "\<not> (\<forall>x\<in>set s. P x)"
    by (simp add: dropWhile_eq_Nil_conv)
  ultimately show ?thesis
    by blast
qed

lemma trim_Nil_iff: "trim s = [] \<longleftrightarrow> list_all isWhiteSpace s"
  by (simp add: trim_def dropWhile_eq_Nil_conv list_all_iff dropWhile_all_iff)

lemma trim_fixed:
  assumes "s \<noteq> []" and "\<not> isWhiteSpace (hd s)" and "\<not> isWhiteSpace (last s)"
  shows "trim s = s"
proof -
  from assms(1,2) have front: "dropWhile isWhiteSpace s = s"
    by (cases s) simp_all
  from assms(1,3) have "dropWhile isWhiteSpace (rev s) = rev s"
    by (cases "rev s") (simp_all add: last_rev [symmetric] hd_rev)
  with front show ?thesis
    by (simp add: trim_def)
qed

lemma trim_ends:
  assumes "trim s \<noteq> []"
  shows "\<not> isWhiteSpace (hd (trim s))" and "\<not> isWhiteSpace (last (trim s))"
proof -
  let ?d = "dropWhile isWhiteSpace s"
  let ?e = "dropWhile isWhiteSpace (rev ?d)"
  from assms have e: "?e \<noteq> []"
    by (simp add: trim_def)
  then have he: "\<not> isWhiteSpace (hd ?e)"
    by (rule hd_dropWhile)
  then show "\<not> isWhiteSpace (last (trim s))"
    using e by (simp add: trim_def last_rev)
  from e have d: "?d \<noteq> []"
    by (cases "?d") simp_all
  then have hd: "\<not> isWhiteSpace (hd ?d)"
    by (rule hd_dropWhile)
  have "\<exists>zs. rev ?d = zs @ ?e"
    by (metis takeWhile_dropWhile_id)
  then obtain zs where "rev ?d = zs @ ?e" ..
  then have "?d = rev ?e @ rev zs"
    by (metis rev_append rev_rev_ident)
  with e have "hd (rev ?e) = hd ?d"
    by (metis hd_append2 rev_is_Nil_conv)
  with hd show "\<not> isWhiteSpace (hd (trim s))"
    by (simp add: trim_def)
qed

lemma trim_trim: "trim (trim s) = trim s"
proof (cases "trim s = []")
  case True
  have "trim [] = []"
    by (simp add: trim_def)
  with True show ?thesis
    by simp
next
  case False
  then show ?thesis by (simp add: trim_fixed trim_ends)
qed

lemma slash_not_space: "\<not> isWhiteSpace 0x2F"
  by (simp add: isWhiteSpace_def)

lemma normalizePath_cases:
  "normalizePath p = [] \<and> list_all isWhiteSpace p
   \<or> normalizePath p \<noteq> [] \<and> hd (normalizePath p) = 0x2F
     \<and> \<not> isWhiteSpace (last (normalizePath p)) \<and> \<not> list_all isWhiteSpace p"
proof (cases "trim p = []")
  case True
  then show ?thesis
    by (simp add: normalizePath_def trim_Nil_iff)
next
  case False
  note ne = this
  then have sp: "\<not> list_all isWhiteSpace p"
    by (simp add: trim_Nil_iff)
  from ne have l: "\<not> isWhiteSpace (last (trim p))"
    by (rule trim_ends)
  show ?thesis
  proof (cases "startsWith (trim p) (js ''/'')")
    case True
    with ne have "hd (trim p) = 0x2F"
      by (cases "trim p") (simp_all add: startsWith_def js_def)
    with ne l sp True show ?thesis
      by (simp add: normalizePath_def)
  next
    case False
    with ne l sp show ?thesis
      by (simp add: normalizePath_def js_def)
  qed
qed

text \<open>
  C4 (as the code has it): normalisation is idempotent on every string. Its result is the
  empty string exactly when the input is empty or consists of white space only, and begins
  with a slash in every other case.
\<close>

theorem normalizePath_idempotent:
  "normalizePath (normalizePath p) = normalizePath p
   \<and> (if list_all isWhiteSpace p then normalizePath p = []
      else startsWith (normalizePath p) (js ''/''))"
proof -
  consider (empty) "normalizePath p = []" "list_all isWhiteSpace p"
    | (path) "normalizePath p \<noteq> []" "hd (normalizePath p) = 0x2F"
        "\<not> isWhiteSpace (last (normalizePath p))" "\<not> list_all isWhiteSpace p"
    using normalizePath_cases [of p] by blast
  then show ?thesis
  proof cases
    case empty
    then show ?thesis
      by (simp add: normalizePath_def trim_def)
  next
    case path
    let ?q = "normalizePath p"
    from path have fixed: "trim ?q = ?q"
      by (simp add: trim_fixed slash_not_space)
    from path(1,2) have starts: "startsWith ?q (js ''/'')"
      by (cases ?q) (simp_all add: startsWith_def js_def)
    have "normalizePath ?q = ?q"
      unfolding normalizePath_def [of ?q] using fixed starts path(1) by simp
    with starts path(4) show ?thesis
      by simp
  qed
qed

theorem normalizePath_idempotent_witness:
  "normalizePath (normalizePath (js '' a/b '')) = js ''/a/b''
   \<and> startsWith (normalizePath (js '' a/b '')) (js ''/'')
   \<and> normalizePath (normalizePath (js ''  '')) = []"
  using normalizePath_idempotent [of "js '' a/b ''"] normalizePath_idempotent [of "js ''  ''"]
  by (simp add: normalizePath_def trim_def isWhiteSpace_def startsWith_def js_def)

text \<open>
  C4 (as stated) fails: the normalised empty path is the empty string, which does not
  start with a slash.
\<close>

theorem normalizePath_empty_counterexample:
  "\<not> startsWith (normalizePath (js '''')) (js ''/'')"
  by (simp add: normalizePath_def trim_def startsWith_def js_def)

section \<open>The lint engine: score and verdict\<close>

lemma push_issue_fst: "fst (push_issue lv m p st) = fst st - p"
  by (simp add: push_issue_def)

lemma push_issue_snd: "snd (push_issue lv m p st) = snd st @ [\<lparr>level = lv, msg = m\<rparr>]"
  by (simp add: push_issue_def)

lemma rule_contact_le: "fst (rule_contact pf cs st) \<le> fst st"
  by (simp add: rule_contact_def push_issue_fst Let_def)

lemma rule_expires_le: "fst (rule_expires pf now es st) \<le> fst st"
  by (simp add: rule_expires_def push_issue_fst split: list.split option.split)

lemma rule_policy_le: "fst (rule_policy pf ps st) \<le> fst st"
  by (simp add: rule_policy_def push_issue_fst Let_def)

lemma rule_prefLang_le: "fst (rule_prefLang ls st) \<le> fst st"
  by (simp add: rule_prefLang_def push_issue_fst Let_def)

lemma rule_bonus_le: "fst (rule_bonus a b c st) \<le> fst st + 6"
  by (simp add: rule_bonus_def Let_def)

lemma rule_unparsed_le: "fst (rule_unparsed fs st) \<le> fst st"
  by (simp add: rule_unparsed_def push_issue_fst Let_def)

lemma rule_contact_keeps: "list_ex P (snd st) \<Longrightarrow> list_ex P (snd (rule_contact pf cs st))"
  by (simp add: rule_contact_def push_issue_snd Let_def)

lemma rule_expires_keeps: "list_ex P (snd st) \<Longrightarrow> list_ex P (snd (rule_expires pf now es st))"
  by (simp add: rule_expires_def push_issue_snd split: list.split option.split)

lemma rule_policy_keeps: "list_ex P (snd st) \<Longrightarrow> list_ex P (snd (rule_policy pf ps st))"
  by (simp add: rule_policy_def push_issue_snd Let_def)

lemma rule_prefLang_keeps: "list_ex P (snd st) \<Longrightarrow> list_ex P (snd (rule_prefLang ls st))"
  by (simp add: rule_prefLang_def push_issue_snd Let_def)

lemma rule_bonus_keeps: "snd (rule_bonus a b c st) = snd st"
  by (simp add: rule_bonus_def Let_def)

lemma rule_unparsed_keeps: "list_ex P (snd st) \<Longrightarrow> list_ex P (snd (rule_unparsed fs st))"
  by (simp add: rule_unparsed_def push_issue_snd Let_def)

lemma rule_contact_missing:
  "rule_contact pf [] (100, []) =
     (40, [\<lparr>level = LevelFail,
            msg = js ''Missing Contact: field (provide at least one security contact).''\<rparr>])"
  by (simp add: rule_contact_def push_issue_def)

text \<open>
  C5: for every platform, clock and field map, the score of the report that \<open>lint\<close>
  returns lies between 0 and 100.
\<close>

theorem lint_score_range: "0 \<le> score (lint pf now fs) \<and> score (lint pf now fs) \<le> 100"
  by (simp add: lint_def Let_def)

text \<open>
  C6: the verdict of the report is determined by the issues of the same report: fail when
  some issue has level fail, otherwise warn when some issue has level warn, otherwise ok.
\<close>

theorem lint_verdict_derived:
  "verdict (lint pf now fs) =
     (if list_ex (\<lambda>i. level i = LevelFail) (issues (lint pf now fs)) then VerdictFail
      else if list_ex (\<lambda>i. level i = LevelWarn) (issues (lint pf now fs)) then VerdictWarn
      else VerdictOk)"
  by (simp add: lint_def Let_def derive_verdict_def)

text \<open>
  C2 (as the code has it): for a field map without an entry under \<open>contact\<close>, the verdict
  is fail and the score is at most 46: the missing Contact costs 60 and the bonus for the
  optional fields gives back up to 6.
\<close>

theorem lint_missing_contact:
  assumes "fs (js ''contact'') = None"
  shows "verdict (lint pf now fs) = VerdictFail \<and> score (lint pf now fs) \<le> 46"
proof -
  let ?s1 = "rule_contact pf [] (100, [])"
  let ?s2 = "rule_expires pf now (values_of fs (js ''expires'')) ?s1"
  let ?s3 = "rule_policy pf (values_of fs (js ''policy'')) ?s2"
  let ?s4 = "rule_prefLang (values_of fs (js ''preferred-languages'')) ?s3"
  let ?s5 = "rule_bonus (values_of fs (js ''encryption''))
               (values_of fs (js ''acknowledgments'')) (values_of fs (js ''hiring'')) ?s4"
  let ?s6 = "rule_unparsed fs ?s5"
  let ?P = "\<lambda>i. level i = LevelFail"
  from assms have contacts: "values_of fs (js ''contact'') = []"
    by (simp add: values_of_def)
  have "fst ?s1 = 40" and "list_ex ?P (snd ?s1)"
    by (simp_all add: rule_contact_missing)
  moreover have "fst ?s2 \<le> fst ?s1" by (rule rule_expires_le)
  moreover have "fst ?s3 \<le> fst ?s2" by (rule rule_policy_le)
  moreover have "fst ?s4 \<le> fst ?s3" by (rule rule_prefLang_le)
  moreover have "fst ?s5 \<le> fst ?s4 + 6" by (rule rule_bonus_le)
  moreover have "fst ?s6 \<le> fst ?s5" by (rule rule_unparsed_le)
  ultimately have bound: "fst ?s6 \<le> 46"
    by linarith
  have "list_ex ?P (snd ?s1)"
    by (simp add: rule_contact_missing)
  then have "list_ex ?P (snd ?s2)" by (rule rule_expires_keeps)
  then have "list_ex ?P (snd ?s3)" by (rule rule_policy_keeps)
  then have "list_ex ?P (snd ?s4)" by (rule rule_prefLang_keeps)
  then have "list_ex ?P (snd ?s5)" by (simp only: rule_bonus_keeps)
  then have failing: "list_ex ?P (snd ?s6)" by (rule rule_unparsed_keeps)
  have "lint pf now fs =
          \<lparr>verdict = derive_verdict (snd ?s6), score = max 0 (min 100 (fst ?s6)), issues = snd ?s6\<rparr>"
    by (simp add: lint_def Let_def contacts)
  with bound failing show ?thesis
    by (simp add: derive_verdict_def)
qed

lemma js_eq_iff: "js s = js t \<longleftrightarrow> s = t"
proof -
  have "inj (of_char :: char \<Rightarrow> nat)"
    by (rule injI) (metis char_of_char)
  then have "inj (map (of_char :: char \<Rightarrow> nat))"
    by simp
  then show ?thesis
    by (auto simp: js_def [abs_def] dest: injD)
qed

lemma sample_fields_contact: "sample_fields (js ''contact'') = None"
  by (simp add: sample_fields_def js_eq_iff)


text \<open>The sample field map has no Contact entry.\<close>

theorem lint_missing_contact_witness:
  "sample_fields (js ''contact'') = None
   \<and> verdict (lint sample_platform sample_now sample_fields) = VerdictFail
   \<and> score (lint sample_platform sample_now sample_fields) \<le> 46"
  using lint_missing_contact [of sample_fields sample_platform sample_now] sample_fields_contact
  by simp

lemma sample_values:
  "values_of sample_fields (js ''contact'') = []"
  "values_of sample_fields (js ''expires'') = [js ''2099-01-01T00:00:00Z'']"
  "values_of sample_fields (js ''policy'') = [js ''https://example.com/policy'']"
  "values_of sample_fields (js ''preferred-languages'') = []"
  "values_of sample_fields (js ''encryption'') = [js ''https://example.com/key'']"
  "values_of sample_fields (js ''acknowledgments'') = [js ''https://example.com/thanks'']"
  "values_of sample_fields (js ''hiring'') = [js ''https://example.com/jobs'']"
  "values_of sample_fields (js ''__unparsed'') = []"
  by (simp_all add: values_of_def sample_fields_def js_eq_iff)

lemma trim_date_2099: "trim (js ''2099-01-01T00:00:00Z'') = js ''2099-01-01T00:00:00Z''"
  by (simp add: trim_def isWhiteSpace_def js_def)

lemma trim_date_2000: "trim (js ''2000-01-01T00:00:00Z'') = js ''2000-01-01T00:00:00Z''"
  by (simp add: trim_def isWhiteSpace_def js_def)

lemma js_not_Nil: "js s = [] \<longleftrightarrow> s = []"
  by (simp add: js_def)

lemma sample_expires:
  "parseRfc3339Date sample_platform (js ''2099-01-01T00:00:00Z'') = Some 4070908800000"
  by (simp add: parseRfc3339Date_def trim_date_2099 sample_platform_def js_eq_iff js_not_Nil)

lemma sample_policy: "looksLikeUrlOrMailto sample_platform (js ''https://example.com/policy'')"
proof -
  have "trim (js ''https://example.com/policy'') = js ''https://example.com/policy''"
    by (simp add: trim_def isWhiteSpace_def js_def)
  then show ?thesis
    by (simp add: looksLikeUrlOrMailto_def sample_platform_def js_eq_iff js_not_Nil)
qed

lemma sample_lint:
  "lint sample_platform sample_now sample_fields =
     \<lparr>verdict = VerdictFail, score = 46,
      issues = [\<lparr>level = LevelFail,
                 msg = js ''Missing Contact: field (provide at least one security contact).''\<rparr>]\<rparr>"
proof -
  let ?s1 = "(40, [\<lparr>level = LevelFail,
      msg = js ''Missing Contact: field (provide at least one security contact).''\<rparr>])"
  have "rule_expires sample_platform sample_now [js ''2099-01-01T00:00:00Z''] ?s1 = ?s1"
    by (simp add: rule_expires_def sample_expires sample_now_def)
  moreover have "rule_policy sample_platform [js ''https://example.com/policy''] ?s1 = ?s1"
    by (simp add: rule_policy_def sample_policy)
  moreover have "rule_prefLang [] ?s1 = ?s1"
    by (simp add: rule_prefLang_def)
  moreover have "rule_bonus [js ''https://example.com/key''] [js ''https://example.com/thanks'']
      [js ''https://example.com/jobs''] ?s1 = (46, snd ?s1)"
    by (simp add: rule_bonus_def js_not_Nil)
  moreover have "rule_unparsed sample_fields (46, snd ?s1) = (46, snd ?s1)"
    by (simp add: rule_unparsed_def sample_values)
  ultimately show ?thesis
    by (simp add: lint_def sample_values rule_contact_missing derive_verdict_def)
qed

text \<open>
  C2 (as stated) fails: the sample field map has no Contact entry and scores 46, which is
  more than 40.
\<close>

theorem lint_missing_contact_counterexample:
  "sample_fields (js ''contact'') = None
   \<and> \<not> score (lint sample_platform sample_now sample_fields) \<le> 40"
  by (simp add: sample_fields_contact sample_lint)

text \<open>The score and the verdict of the sample field map.\<close>

theorem lint_score_range_witness:
  "0 \<le> score (lint sample_platform sample_now sample_fields)
   \<and> score (lint sample_platform sample_now sample_fields) \<le> 100
   \<and> score (lint sample_platform sample_now sample_fields) = 46"
  using lint_score_range [of sample_platform sample_now sample_fields]
  by (simp add: sample_lint)

theorem lint_verdict_derived_witness:
  "verdict (lint sample_platform sample_now sample_fields) = VerdictFail
   \<and> list_ex (\<lambda>i. level i = LevelFail) (issues (lint sample_platform sample_now sample_fields))"
  using lint_verdict_derived [of sample_platform sample_now sample_fields]
  by (simp add: sample_lint)

lemma expired_text_fields:
  "parseSecurityTxt (js ''Expires: 2000-01-01T00:00:00Z'' @ [0x0A]) =
     Inr [js ''expires'' \<mapsto> \<lparr>name = js ''Expires'', values = [js ''2000-01-01T00:00:00Z'']\<rparr>]"
  by (simp add: parseSecurityTxt_def parse_line_def push_value_def field_match_def
      Object_prototype_keys_def toLowerCase_def lowerAscii_def isUpper_def isLower_def
      isDigit_def isAlpha_def isAlnum_def isFieldNameChar_def isLineTerminator_def
      trim_def isWhiteSpace_def startsWith_def js_def)

lemma expired_fields_lint:
  assumes "Date_parse pf (js ''2000-01-01T00:00:00Z'') = Some 946684800000"
    and "946684800000 < now"
  shows "lint pf now
           [js ''expires'' \<mapsto> \<lparr>name = js ''Expires'', values = [js ''2000-01-01T00:00:00Z'']\<rparr>] =
         \<lparr>verdict = VerdictFail, score = 0,
          issues =
            [\<lparr>level = LevelFail,
              msg = js ''Missing Contact: field (provide at least one security contact).''\<rparr>,
             \<lparr>level = LevelFail,
              msg = js ''Expires: is in the past ('' @ toISOString pf 946684800000 @ js '').''\<rparr>,
             \<lparr>level = LevelWarn,
              msg = js ''Missing Policy: field (recommended; points to disclosure policy).''\<rparr>]\<rparr>"
proof -
  let ?fs = "[js ''expires'' \<mapsto> \<lparr>name = js ''Expires'', values = [js ''2000-01-01T00:00:00Z'']\<rparr>]"
  let ?i1 = "\<lparr>level = LevelFail,
      msg = js ''Missing Contact: field (provide at least one security contact).''\<rparr>"
  let ?i2 = "\<lparr>level = LevelFail,
      msg = js ''Expires: is in the past ('' @ toISOString pf 946684800000 @ js '').''\<rparr>"
  let ?i3 = "\<lparr>level = LevelWarn,
      msg = js ''Missing Policy: field (recommended; points to disclosure policy).''\<rparr>"
  have vals: "values_of ?fs (js ''contact'') = []"
    "values_of ?fs (js ''expires'') = [js ''2000-01-01T00:00:00Z'']"
    "values_of ?fs (js ''policy'') = []"
    "values_of ?fs (js ''preferred-languages'') = []"
    "values_of ?fs (js ''encryption'') = []"
    "values_of ?fs (js ''acknowledgments'') = []"
    "values_of ?fs (js ''hiring'') = []"
    "values_of ?fs (js ''__unparsed'') = []"
    by (simp_all add: values_of_def js_eq_iff)
  from assms(1) have date: "parseRfc3339Date pf (js ''2000-01-01T00:00:00Z'') = Some 946684800000"
    by (simp add: parseRfc3339Date_def trim_date_2000 js_not_Nil)
  have "rule_expires pf now [js ''2000-01-01T00:00:00Z''] (40, [?i1]) = (5, [?i1, ?i2])"
    using assms(2) by (simp add: rule_expires_def date push_issue_def)
  moreover have "rule_policy pf [] (5, [?i1, ?i2]) = (0, [?i1, ?i2, ?i3])"
    by (simp add: rule_policy_def push_issue_def)
  moreover have "rule_prefLang [] (0, [?i1, ?i2, ?i3]) = (0, [?i1, ?i2, ?i3])"
    by (simp add: rule_prefLang_def)
  moreover have "rule_bonus [] [] [] (0, [?i1, ?i2, ?i3]) = (0, [?i1, ?i2, ?i3])"
    by (simp add: rule_bonus_def)
  moreover have "rule_unparsed ?fs (0, [?i1, ?i2, ?i3]) = (0, [?i1, ?i2, ?i3])"
    by (simp add: rule_unparsed_def vals)
  ultimately show ?thesis
    by (simp add: lint_def vals rule_contact_missing derive_verdict_def)
qed

text \<open>
  C3 (as the code has it): on a platform whose date parser reads the timestamp as
  2000-01-01T00:00:00Z, at any instant after it, the manifest text
  \<open>"Expires: 2000-01-01T00:00:00Z\n"\<close> parses, and its report has verdict fail and score 0:
  the missing Contact costs 60, the expired date 35 and the missing Policy 5. The issues
  are fail, fail, warn, in this order.
\<close>

theorem expired_manifest_lint:
  assumes "Date_parse pf (js ''2000-01-01T00:00:00Z'') = Some 946684800000"
    and "946684800000 < now"
  shows "\<exists>r. parse_and_lint pf now (js ''Expires: 2000-01-01T00:00:00Z'' @ [0x0A]) = Inr r
           \<and> verdict r = VerdictFail \<and> score r = 0
           \<and> map level (issues r) = [LevelFail, LevelFail, LevelWarn]"
  by (simp add: parse_and_lint_def expired_text_fields expired_fields_lint [OF assms])

lemma sample_date_2000:
  "Date_parse sample_platform (js ''2000-01-01T00:00:00Z'') = Some 946684800000"
  by (simp add: sample_platform_def)

lemma sample_now_after_2000: "946684800000 < sample_now"
  by (simp add: sample_now_def)

theorem expired_manifest_lint_witness:
  "\<exists>r. parse_and_lint sample_platform sample_now (js ''Expires: 2000-01-01T00:00:00Z'' @ [0x0A]) = Inr r
      \<and> verdict r = VerdictFail \<and> score r = 0
      \<and> map level (issues r) = [LevelFail, LevelFail, LevelWarn]"
  using sample_date_2000 sample_now_after_2000 by (rule expired_manifest_lint)

text \<open>
  C3 (as stated) fails: the score of that manifest is not 5.
\<close>

theorem expired_manifest_lint_counterexample:
  "map_sum id score
     (parse_and_lint sample_platform sample_now (js ''Expires: 2000-01-01T00:00:00Z'' @ [0x0A]))
   \<noteq> Inr 5"
  by (simp add: parse_and_lint_def expired_text_fields
      expired_fields_lint [OF sample_date_2000 sample_now_after_2000])

section \<open>The lint engine: the fields and the clock it reads\<close>

lemma values_of_map_option:
  "values_of fs k = (case map_option values (fs k) of None \<Rightarrow> [] | Some vs \<Rightarrow> vs)"
  by (simp add: values_of_def split: option.split)

lemma lint_reads_values:
  assumes "\<forall>k\<in>set lint_keys. values_of f1 k = values_of f2 k"
  shows "lint pf now f1 = lint pf now f2"
proof -
  from assms have eqs:
    "values_of f1 (js ''contact'') = values_of f2 (js ''contact'')"
    "values_of f1 (js ''expires'') = values_of f2 (js ''expires'')"
    "values_of f1 (js ''policy'') = values_of f2 (js ''policy'')"
    "values_of f1 (js ''preferred-languages'') = values_of f2 (js ''preferred-languages'')"
    "values_of f1 (js ''encryption'') = values_of f2 (js ''encryption'')"
    "values_of f1 (js ''acknowledgments'') = values_of f2 (js ''acknowledgments'')"
    "values_of f1 (js ''hiring'') = values_of f2 (js ''hiring'')"
    "values_of f1 (js ''__unparsed'') = values_of f2 (js ''__unparsed'')"
    by (simp_all add: lint_keys_def)
  have "rule_unparsed f1 st = rule_unparsed f2 st" for st
    by (simp add: rule_unparsed_def eqs)
  then show ?thesis
    by (simp add: lint_def eqs)
qed

lemma rule_expires_clock:
  assumes "case es of [] \<Rightarrow> True
           | e0 # _ \<Rightarrow> (case parseRfc3339Date pf e0 of
                          None \<Rightarrow> True
                        | Some d \<Rightarrow> (d < now1) = (d < now2))"
  shows "rule_expires pf now1 es st = rule_expires pf now2 es st"
  using assms by (auto simp: rule_expires_def split: list.splits option.splits)

text \<open>
  C10: two field maps that agree on the values under the eight keys that \<open>lint\<close> reads get
  the same report at the same instant; setting, changing or removing any other key does
  not change the report; and two instants give the same report when the first Expires
  value is absent, unparseable, or lies before both or before neither of them.
\<close>

theorem lint_noninterference:
  "((\<forall>k\<in>set lint_keys. map_option values (f1 k) = map_option values (f2 k))
      \<longrightarrow> lint pf now f1 = lint pf now f2)
   \<and> (k \<notin> set lint_keys \<longrightarrow> lint pf now (fs(k := x)) = lint pf now fs)
   \<and> ((case values_of fs (js ''expires'') of
          [] \<Rightarrow> True
        | e0 # _ \<Rightarrow> (case parseRfc3339Date pf e0 of
                       None \<Rightarrow> True
                     | Some d \<Rightarrow> (d < now1) = (d < now2)))
      \<longrightarrow> lint pf now1 fs = lint pf now2 fs)"
proof (intro conjI impI)
  assume "\<forall>k\<in>set lint_keys. map_option values (f1 k) = map_option values (f2 k)"
  then have "\<forall>k\<in>set lint_keys. values_of f1 k = values_of f2 k"
    by (simp add: values_of_map_option)
  then show "lint pf now f1 = lint pf now f2"
    by (rule lint_reads_values)
next
  assume "k \<notin> set lint_keys"
  then have "\<forall>k'\<in>set lint_keys. values_of (fs(k := x)) k' = values_of fs k'"
    by (auto simp: values_of_def)
  then show "lint pf now (fs(k := x)) = lint pf now fs"
    by (rule lint_reads_values)
next
  assume "case values_of fs (js ''expires'') of
            [] \<Rightarrow> True
          | e0 # _ \<Rightarrow> (case parseRfc3339Date pf e0 of
                         None \<Rightarrow> True
                       | Some d \<Rightarrow> (d < now1) = (d < now2))"
  then have "rule_expires pf now1 (values_of fs (js ''expires'')) st
             = rule_expires pf now2 (values_of fs (js ''expires'')) st" for st
    by (rule rule_expires_clock)
  then show "lint pf now1 fs = lint pf now2 fs"
    by (simp add: lint_def)
qed

lemma canonical_not_read: "js ''canonical'' \<notin> set lint_keys"
  by (simp add: lint_keys_def js_eq_iff)

theorem lint_noninterference_witness:
  "lint sample_platform sample_now
     (sample_fields(js ''canonical'' \<mapsto>
        \<lparr>name = js ''Canonical'', values = [js ''https://example.com/security.txt'']\<rparr>))
   = lint sample_platform sample_now sample_fields
   \<and> lint sample_platform sample_now (sample_fields(js ''canonical'' := None))
     = lint sample_platform sample_now sample_fields
   \<and> lint sample_platform sample_now sample_fields
     = lint sample_platform (sample_now + 1) sample_fields"
proof -
  let ?e = "\<lparr>name = js ''Canonical'', values = [js ''https://example.com/security.txt'']\<rparr>"
  let ?f2 = "sample_fields(js ''canonical'' \<mapsto> ?e)"
  have agree: "\<forall>k\<in>set lint_keys. map_option values (?f2 k) = map_option values (sample_fields k)"
    by (simp add: lint_keys_def js_eq_iff)
  have clock: "case values_of sample_fields (js ''expires'') of
            [] \<Rightarrow> True
          | e0 # _ \<Rightarrow> (case parseRfc3339Date sample_platform e0 of
                         None \<Rightarrow> True
                       | Some d \<Rightarrow> (d < sample_now) = (d < sample_now + 1))"
    by (simp add: sample_values sample_expires sample_now_def)
  from agree clock canonical_not_read show ?thesis
    using lint_noninterference [of ?f2 sample_fields sample_platform sample_now
        "js ''canonical''" sample_fields None sample_now "sample_now + 1"]
    by blast
qed


section \<open>The manifest parser: the reserved bucket\<close>

lemma field_char_not_underscore: "isFieldNameChar c \<Longrightarrow> lowerAscii c \<noteq> 0x5F"
  by (auto simp: isFieldNameChar_def isAlnum_def isAlpha_def isUpper_def isLower_def
      isDigit_def lowerAscii_def)

lemma field_match_name:
  assumes "field_match line = Some (nm, v)"
  shows "nm \<noteq> []" and "list_all isFieldNameChar nm"
proof -
  from assms have nm: "nm = takeWhile isFieldNameChar line" and "takeWhile isFieldNameChar line \<noteq> []"
    by (auto simp: field_match_def Let_def split: if_splits list.splits)
  then show "nm \<noteq> []"
    by simp
  from nm show "list_all isFieldNameChar nm"
    by (auto simp: list_all_iff dest: set_takeWhileD)
qed

lemma unparsed_key_hd: "hd (js ''__unparsed'') = 0x5F"
  by (simp add: js_def)

lemma field_match_key:
  assumes "field_match line = Some (nm, v)"
  shows "toLowerCase nm \<noteq> js ''__unparsed''"
proof
  assume eq: "toLowerCase nm = js ''__unparsed''"
  from assms have "nm \<noteq> []" and "list_all isFieldNameChar nm"
    by (rule field_match_name)+
  then obtain c cs where "nm = c # cs" and "isFieldNameChar c"
    by (cases nm) simp_all
  then have "hd (toLowerCase nm) \<noteq> 0x5F"
    by (simp add: toLowerCase_def field_char_not_underscore)
  with eq show False
    by (simp add: unparsed_key_hd)
qed

lemma unparsed_not_inherited: "js ''__unparsed'' \<notin> set Object_prototype_keys"
  by (simp add: Object_prototype_keys_def js_eq_iff)

lemma push_value_other:
  assumes "push_value fs key nm v = Inr fs'" and "key \<noteq> k"
  shows "fs' k = fs k"
  using assms by (auto simp: push_value_def split: option.splits if_splits)

lemma push_value_unparsed:
  assumes "fs (js ''__unparsed'') =
             (if acc = [] then None else Some \<lparr>name = js ''__unparsed'', values = acc\<rparr>)"
  shows "\<exists>fs'. push_value fs (js ''__unparsed'') (js ''__unparsed'') l = Inr fs'
           \<and> fs' (js ''__unparsed'') = Some \<lparr>name = js ''__unparsed'', values = acc @ [l]\<rparr>"
  using assms unparsed_not_inherited
  by (cases "acc = []") (simp_all add: push_value_def)

lemma parse_line_bucket:
  assumes inv: "fs (js ''__unparsed'') =
             (if acc = [] then None else Some \<lparr>name = js ''__unparsed'', values = acc\<rparr>)"
    and step: "parse_line fs l = Inr fs'"
  shows "fs' (js ''__unparsed'') =
           (if acc @ filter is_unparsed [l] = [] then None
            else Some \<lparr>name = js ''__unparsed'', values = acc @ filter is_unparsed [l]\<rparr>)"
proof (cases "is_unparsed l")
  case True
  then have "parse_line fs l = push_value fs (js ''__unparsed'') (js ''__unparsed'') l"
    by (simp add: parse_line_def is_unparsed_def)
  with step push_value_unparsed [of fs acc l] inv True show ?thesis
    by auto
next
  case False
  show ?thesis
  proof (cases "trim l = [] \<or> startsWith (trim l) (js ''#'')")
    case True
    with step have "fs' = fs"
      by (auto simp: parse_line_def Let_def split: if_splits)
    with inv False show ?thesis
      by simp
  next
    case blank: False
    with False obtain nm v where m: "field_match (trim l) = Some (nm, v)"
      by (auto simp: is_unparsed_def)
    with blank step have "push_value fs (toLowerCase nm) nm v = Inr fs'"
      by (simp add: parse_line_def)
    moreover from m have "toLowerCase nm \<noteq> js ''__unparsed''"
      by (rule field_match_key)
    ultimately have "fs' (js ''__unparsed'') = fs (js ''__unparsed'')"
      by (rule push_value_other)
    with inv False show ?thesis
      by simp
  qed
qed

lemma parse_lines_bucket:
  assumes "fs (js ''__unparsed'') =
             (if acc = [] then None else Some \<lparr>name = js ''__unparsed'', values = acc\<rparr>)"
    and "parse_lines fs ls = Inr fs'"
  shows "fs' (js ''__unparsed'') =
           (if acc @ filter is_unparsed ls = [] then None
            else Some \<lparr>name = js ''__unparsed'', values = acc @ filter is_unparsed ls\<rparr>)"
  using assms
proof (induction ls arbitrary: fs acc)
  case Nil
  then show ?case
    by simp
next
  case (Cons l ls)
  from Cons.prems(2) obtain fs1 where one: "parse_line fs l = Inr fs1"
    and rest: "parse_lines fs1 ls = Inr fs'"
    by (auto split: sum.splits)
  from Cons.prems(1) one have "fs1 (js ''__unparsed'') =
      (if acc @ filter is_unparsed [l] = [] then None
       else Some \<lparr>name = js ''__unparsed'', values = acc @ filter is_unparsed [l]\<rparr>)"
    by (rule parse_line_bucket)
  from Cons.IH [OF this rest] show ?case
    by simp
qed

lemma reserved_line_no_match: "field_match (js ''__unparsed: x'') = None"
  by (simp add: field_match_def isFieldNameChar_def isAlnum_def isAlpha_def isUpper_def
      isLower_def isDigit_def js_def)

lemma lower_field_char:
  "isFieldNameChar c \<Longrightarrow> isFieldNameChar (lowerAscii c) \<and> \<not> isUpper (lowerAscii c)"
  by (auto simp: isFieldNameChar_def isAlnum_def isAlpha_def isUpper_def isLower_def
      isDigit_def lowerAscii_def)

lemma lower_field_name:
  "list_all isFieldNameChar nm
   \<Longrightarrow> list_all (\<lambda>c. isFieldNameChar c \<and> \<not> isUpper c) (toLowerCase nm)"
  by (induction nm) (simp_all add: toLowerCase_def lower_field_char)

lemma inherited_lower_name:
  assumes "k \<in> set Object_prototype_keys"
    and "list_all (\<lambda>c. isFieldNameChar c \<and> \<not> isUpper c) k"
  shows "k = js ''constructor''"
  using assms
  by (auto simp: Object_prototype_keys_def isFieldNameChar_def isAlnum_def isAlpha_def
      isUpper_def isLower_def isDigit_def js_def)

lemma field_key_inherited:
  assumes "field_match line = Some (nm, v)" and "toLowerCase nm \<in> set Object_prototype_keys"
  shows "toLowerCase nm = js ''constructor''"
proof -
  from assms(1) have "list_all isFieldNameChar nm"
    by (rule field_match_name)
  then have "list_all (\<lambda>c. isFieldNameChar c \<and> \<not> isUpper c) (toLowerCase nm)"
    by (rule lower_field_name)
  with assms(2) show ?thesis
    by (rule inherited_lower_name)
qed

lemma push_value_returns:
  assumes "key \<notin> set Object_prototype_keys"
  shows "\<exists>fs'. push_value fs key nm v = Inr fs'"
  using assms by (simp add: push_value_def split: option.split)

lemma parse_line_returns:
  assumes "case field_match (trim l) of
             None \<Rightarrow> True
           | Some (nm, v) \<Rightarrow> toLowerCase nm \<noteq> js ''constructor''"
  shows "\<exists>fs'. parse_line fs l = Inr fs'"
proof (cases "field_match (trim l)")
  case None
  then show ?thesis
    by (simp add: parse_line_def Let_def push_value_returns unparsed_not_inherited)
next
  case (Some a)
  obtain nm v where a: "a = (nm, v)"
    by (cases a)
  with Some assms have "toLowerCase nm \<notin> set Object_prototype_keys"
    using field_key_inherited [of "trim l" nm v] by auto
  with Some a show ?thesis
    by (simp add: parse_line_def Let_def push_value_returns)
qed

lemma parse_lines_returns:
  assumes "list_all (\<lambda>l. case field_match (trim l) of
                            None \<Rightarrow> True
                          | Some (nm, v) \<Rightarrow> toLowerCase nm \<noteq> js ''constructor'') ls"
  shows "\<exists>fs'. parse_lines fs ls = Inr fs'"
  using assms
proof (induction ls arbitrary: fs)
  case Nil
  then show ?case
    by simp
next
  case (Cons l ls)
  then obtain fs1 where "parse_line fs l = Inr fs1"
    using parse_line_returns [of l fs] by auto
  with Cons show ?case
    by simp
qed

text \<open>
  The parser returns a field map for every text that has no field named \<open>constructor\<close>
  (in any letter case).
\<close>

lemma parseSecurityTxt_returns:
  assumes "list_all (\<lambda>l. case field_match (trim l) of
                            None \<Rightarrow> True
                          | Some (nm, v) \<Rightarrow> toLowerCase nm \<noteq> js ''constructor'')
             (split_lines txt)"
  shows "\<exists>fs. parseSecurityTxt txt = Inr fs"
  using assms by (simp add: parseSecurityTxt_def parse_lines_returns)

text \<open>
  C9: when \<open>parseSecurityTxt\<close> returns a field map, its entry under \<open>__unparsed\<close> is absent
  if the text has no unparsed line, and otherwise is the entry named \<open>__unparsed\<close> whose
  values are exactly the unparsed raw lines, verbatim and in order. No line that matches
  the field grammar has \<open>__unparsed\<close> as its key, and the line \<open>__unparsed: x\<close> does not
  match the grammar.
\<close>

theorem parse_unparsed_bucket:
  assumes "parseSecurityTxt txt = Inr fs"
  shows "fs (js ''__unparsed'') =
           (if unparsed_lines txt = [] then None
            else Some \<lparr>name = js ''__unparsed'', values = unparsed_lines txt\<rparr>)
         \<and> (field_match line = Some (nm, v) \<longrightarrow> toLowerCase nm \<noteq> js ''__unparsed'')
         \<and> field_match (js ''__unparsed: x'') = None"
proof -
  from parse_lines_bucket [of Map.empty "[]" "split_lines txt" fs] assms
  have "fs (js ''__unparsed'') =
          (if unparsed_lines txt = [] then None
           else Some \<lparr>name = js ''__unparsed'', values = unparsed_lines txt\<rparr>)"
    by (simp add: parseSecurityTxt_def unparsed_lines_def)
  then show ?thesis
    by (simp add: field_match_key reserved_line_no_match)
qed


text \<open>
  The parser is not total: a field named \<open>constructor\<close> finds the inherited property of the
  plain object, and the call of \<open>push\<close> throws.
\<close>

lemma constructor_field_throws: "parseSecurityTxt (js ''Constructor: x'') = Inl TypeError"
  by (simp add: parseSecurityTxt_def parse_line_def push_value_def field_match_def
      Object_prototype_keys_def toLowerCase_def lowerAscii_def isUpper_def isLower_def
      isDigit_def isAlpha_def isAlnum_def isFieldNameChar_def isLineTerminator_def
      trim_def isWhiteSpace_def startsWith_def js_def)

lemma sample_text_fields:
  "parseSecurityTxt sample_text =
     Inr [js ''__unparsed'' \<mapsto> \<lparr>name = js ''__unparsed'', values = [js ''hello world'']\<rparr>,
          js ''a'' \<mapsto> \<lparr>name = js ''A'', values = [js ''1'']\<rparr>]"
  by (simp add: sample_text_def parseSecurityTxt_def parse_line_def push_value_def
      field_match_def Object_prototype_keys_def toLowerCase_def lowerAscii_def isUpper_def
      isLower_def isDigit_def isAlpha_def isAlnum_def isFieldNameChar_def
      isLineTerminator_def trim_def isWhiteSpace_def startsWith_def js_def)

lemma sample_text_unparsed: "unparsed_lines sample_text = [js ''hello world'']"
  by (simp add: sample_text_def unparsed_lines_def is_unparsed_def field_match_def
      isUpper_def isLower_def isDigit_def isAlpha_def isAlnum_def isFieldNameChar_def
      isLineTerminator_def trim_def isWhiteSpace_def startsWith_def js_def)

theorem parse_unparsed_bucket_witness:
  "\<exists>fs. parseSecurityTxt sample_text = Inr fs
      \<and> fs (js ''__unparsed'') = Some \<lparr>name = js ''__unparsed'', values = [js ''hello world'']\<rparr>
      \<and> field_match (js ''A: 1'') = Some (js ''A'', js ''1'')
      \<and> toLowerCase (js ''A'') \<noteq> js ''__unparsed''"
proof -
  have m: "field_match (js ''A: 1'') = Some (js ''A'', js ''1'')"
    by (simp add: field_match_def isUpper_def isLower_def isDigit_def isAlpha_def isAlnum_def
        isFieldNameChar_def isLineTerminator_def isWhiteSpace_def js_def)
  obtain fs where p: "parseSecurityTxt sample_text = Inr fs"
    using sample_text_fields by blast
  from parse_unparsed_bucket [OF p, of "js ''A: 1''" "js ''A''" "js ''1''"] m p
  show ?thesis
    by (simp add: sample_text_unparsed)
qed

section \<open>The prober\<close>

lemma fetchWithMeta_url: "url (fst (fetchWithMeta w u)) = u"
  by (simp add: fetchWithMeta_def fetch_def Let_def split: fetch_outcome.split sum.split)

lemma fetchWithMeta_requests: "requests (snd (fetchWithMeta w u)) = requests w @ [u]"
  by (simp add: fetchWithMeta_def fetch_def Let_def split: fetch_outcome.split sum.split)

lemma truncate_fields:
  "url (attempt.truncate m) = url m" "ok (attempt.truncate m) = ok m"
  by (simp_all add: attempt.truncate_def)

lemma try_candidates_spec:
  assumes "try_candidates w atts cs = (mo, atts', w')"
  shows "\<exists>new. atts' = atts @ new
           \<and> map url new = take (length new) cs
           \<and> requests w' = requests w @ map url new
           \<and> (case mo of
                 None \<Rightarrow> length new = length cs \<and> list_all (\<lambda>a. \<not> ok a) new
               | Some m \<Rightarrow> new \<noteq> [] \<and> last new = attempt.truncate m \<and> ok m
                   \<and> list_all (\<lambda>a. \<not> ok a) (butlast new))"
  using assms
proof (induction cs arbitrary: w atts)
  case Nil
  then show ?case
    by auto
next
  case (Cons u cs)
  obtain m w1 where f: "fetchWithMeta w u = (m, w1)"
    by (cases "fetchWithMeta w u")
  from f have um: "url m = u" and rq: "requests w1 = requests w @ [u]"
    using fetchWithMeta_url [of w u] fetchWithMeta_requests [of w u] by simp_all
  let ?a = "attempt.truncate m"
  show ?case
  proof (cases "ok m")
    case True
    with Cons.prems f have "mo = Some m" "atts' = atts @ [?a]" "w' = w1"
      by simp_all
    with True um rq show ?thesis
      by (intro exI [of _ "[?a]"]) (simp add: truncate_fields)
  next
    case False
    with Cons.prems f have "try_candidates w1 (atts @ [?a]) cs = (mo, atts', w')"
      by simp
    from Cons.IH [OF this] obtain new where new: "atts' = (atts @ [?a]) @ new"
      "map url new = take (length new) cs" "requests w' = requests w1 @ map url new"
      "case mo of
         None \<Rightarrow> length new = length cs \<and> list_all (\<lambda>a. \<not> ok a) new
       | Some m \<Rightarrow> new \<noteq> [] \<and> last new = attempt.truncate m \<and> ok m
           \<and> list_all (\<lambda>a. \<not> ok a) (butlast new)"
      by blast
    with False um rq show ?thesis
      by (intro exI [of _ "?a # new"]) (auto simp: truncate_fields split: option.splits)
  qed
qed

lemma try_hosts_spec:
  assumes "try_hosts host eps th w atts hs = (r, w')"
  shows "\<exists>new. attempts r = atts @ new
           \<and> map url new
               = take (length new) (concat (map (\<lambda>h. buildCandidateUrlsForHost h eps th) hs))
           \<and> requests w' = requests w @ map url new
           \<and> (if found r
               then new \<noteq> [] \<and> ok (last new) \<and> list_all (\<lambda>a. \<not> ok a) (butlast new)
               else length new = length (concat (map (\<lambda>h. buildCandidateUrlsForHost h eps th) hs))
                 \<and> list_all (\<lambda>a. \<not> ok a) new)"
  using assms
proof (induction hs arbitrary: w atts)
  case Nil
  then show ?case
    by auto
next
  case (Cons h hs)
  let ?cs = "buildCandidateUrlsForHost h eps th"
  let ?rest = "concat (map (\<lambda>h. buildCandidateUrlsForHost h eps th) hs)"
  obtain mo atts1 w1 where t: "try_candidates w atts ?cs = (mo, atts1, w1)"
    by (cases "try_candidates w atts ?cs")
  from try_candidates_spec [OF t] obtain new1 where n1: "atts1 = atts @ new1"
    "map url new1 = take (length new1) ?cs" "requests w1 = requests w @ map url new1"
    "case mo of
       None \<Rightarrow> length new1 = length ?cs \<and> list_all (\<lambda>a. \<not> ok a) new1
     | Some m \<Rightarrow> new1 \<noteq> [] \<and> last new1 = attempt.truncate m \<and> ok m
         \<and> list_all (\<lambda>a. \<not> ok a) (butlast new1)"
    by blast
  show ?case
  proof (cases mo)
    case (Some m)
    with Cons.prems t have "found r" "attempts r = atts1" "w' = w1"
      by auto
    moreover from n1(2) have "map url new1 = take (length new1) (?cs @ ?rest)"
      by (metis length_map length_take min.cobounded2 take_all take_append
          diff_is_0_eq' take_0 append_Nil2 min_def)
    ultimately show ?thesis
      using n1 Some by (intro exI [of _ new1]) (simp add: truncate_fields)
  next
    case None
    with Cons.prems t have "try_hosts host eps th w1 atts1 hs = (r, w')"
      by simp
    from Cons.IH [OF this] obtain new2 where n2: "attempts r = atts1 @ new2"
      "map url new2 = take (length new2) ?rest" "requests w' = requests w1 @ map url new2"
      "if found r
       then new2 \<noteq> [] \<and> ok (last new2) \<and> list_all (\<lambda>a. \<not> ok a) (butlast new2)
       else length new2 = length ?rest \<and> list_all (\<lambda>a. \<not> ok a) new2"
      by blast
    from None n1 have full: "length new1 = length ?cs" "map url new1 = ?cs"
      "list_all (\<lambda>a. \<not> ok a) new1"
      by simp_all
    show ?thesis
    proof (intro exI [of _ "new1 @ new2"] conjI)
      show "attempts r = atts @ new1 @ new2"
        using n1(1) n2(1) by simp
      show "map url (new1 @ new2) = take (length (new1 @ new2))
              (concat (map (\<lambda>h. buildCandidateUrlsForHost h eps th) (h # hs)))"
        using full n2(2) by simp
      show "requests w' = requests w @ map url (new1 @ new2)"
        using n1(3) n2(3) by simp
      show "if found r
            then new1 @ new2 \<noteq> [] \<and> ok (last (new1 @ new2))
              \<and> list_all (\<lambda>a. \<not> ok a) (butlast (new1 @ new2))
            else length (new1 @ new2)
                = length (concat (map (\<lambda>h. buildCandidateUrlsForHost h eps th) (h # hs)))
              \<and> list_all (\<lambda>a. \<not> ok a) (new1 @ new2)"
        using full n2(4) by (auto simp: butlast_append)
    qed
  qed
qed

lemma probe_spec:
  assumes "URL_new pf tabUrl0 = Some u"
  shows "\<exists>r w'. probeSecurityTxt pf w tabUrl0 = Inr (r, w')
           \<and> map url (attempts r)
               = take (length (attempts r)) (all_candidates (getSettings w) (hostname u))
           \<and> requests w' = requests w @ map url (attempts r)
           \<and> (if found r
               then attempts r \<noteq> [] \<and> ok (last (attempts r))
                 \<and> list_all (\<lambda>a. \<not> ok a) (butlast (attempts r))
               else map url (attempts r) = all_candidates (getSettings w) (hostname u)
                 \<and> list_all (\<lambda>a. \<not> ok a) (attempts r))"
proof -
  let ?st = "getSettings w"
  obtain r w' where t: "try_hosts (hostname u) (probe_endpoints ?st) (tryHttpFallback ?st) w []
      (hostsToTry (hostname u)) = (r, w')"
    by (cases "try_hosts (hostname u) (probe_endpoints ?st) (tryHttpFallback ?st) w []
      (hostsToTry (hostname u))")
  with assms have p: "probeSecurityTxt pf w tabUrl0 = Inr (r, w')"
    by (simp add: probeSecurityTxt_def)
  from try_hosts_spec [OF t] have
    "map url (attempts r) = take (length (attempts r)) (all_candidates ?st (hostname u))"
    "requests w' = requests w @ map url (attempts r)"
    "if found r
     then attempts r \<noteq> [] \<and> ok (last (attempts r))
       \<and> list_all (\<lambda>a. \<not> ok a) (butlast (attempts r))
     else length (attempts r) = length (all_candidates ?st (hostname u))
       \<and> list_all (\<lambda>a. \<not> ok a) (attempts r)"
    by (auto simp: all_candidates_def)
  with p show ?thesis
    by (auto split: if_splits)
qed

text \<open>
  C1: when the tab URL parses, \<open>probeSecurityTxt\<close> returns a result. Its attempts are one
  per request issued, for an initial segment of the candidates in their order. With
  \<open>found\<close>, the last attempt is the only one with \<open>ok\<close>; without, there is one attempt for
  every candidate and none has \<open>ok\<close>. So \<open>found\<close> holds exactly when some attempt has
  \<open>ok\<close> and the last one has.
\<close>

theorem probe_attempts:
  assumes "URL_new pf tabUrl0 = Some u"
  shows "\<exists>r w'. probeSecurityTxt pf w tabUrl0 = Inr (r, w')
           \<and> map url (attempts r)
               = take (length (attempts r)) (all_candidates (getSettings w) (hostname u))
           \<and> requests w' = requests w @ map url (attempts r)
           \<and> (if found r
               then attempts r \<noteq> [] \<and> ok (last (attempts r))
                 \<and> list_all (\<lambda>a. \<not> ok a) (butlast (attempts r))
               else map url (attempts r) = all_candidates (getSettings w) (hostname u)
                 \<and> list_all (\<lambda>a. \<not> ok a) (attempts r))
           \<and> (found r \<longleftrightarrow> list_ex ok (attempts r) \<and> ok (last (attempts r)))"
proof -
  from probe_spec [OF assms, of w] obtain r w' where p: "probeSecurityTxt pf w tabUrl0 = Inr (r, w')"
    "map url (attempts r) = take (length (attempts r)) (all_candidates (getSettings w) (hostname u))"
    "requests w' = requests w @ map url (attempts r)"
    "if found r
     then attempts r \<noteq> [] \<and> ok (last (attempts r))
       \<and> list_all (\<lambda>a. \<not> ok a) (butlast (attempts r))
     else map url (attempts r) = all_candidates (getSettings w) (hostname u)
       \<and> list_all (\<lambda>a. \<not> ok a) (attempts r)"
    by blast
  have "found r \<longleftrightarrow> list_ex ok (attempts r) \<and> ok (last (attempts r))"
  proof (cases "found r")
    case True
    with p(4) have "attempts r \<noteq> []" "ok (last (attempts r))"
      by simp_all
    then have "list_ex ok (attempts r)"
      by (auto simp: list_ex_iff intro: last_in_set)
    with True \<open>ok (last (attempts r))\<close> show ?thesis
      by simp
  next
    case False
    with p(4) have "list_all (\<lambda>a. \<not> ok a) (attempts r)"
      by simp
    then have "\<not> list_ex ok (attempts r)"
      by (simp add: list_all_iff list_ex_iff)
    with False show ?thesis
      by simp
  qed
  with p show ?thesis
    by blast
qed


lemma sample_tab_url:
  "URL_new sample_platform (js ''https://www.example.co.uk/'')
     = Some \<lparr>protocol = js ''https:'', hostname = js ''www.example.co.uk''\<rparr>"
  by (simp add: sample_platform_def js_eq_iff)

theorem probe_attempts_witness:
  "\<exists>r w'. probeSecurityTxt sample_platform (sample_world dead_network)
             (js ''https://www.example.co.uk/'') = Inr (r, w')
      \<and> map url (attempts r)
          = take (length (attempts r))
              (all_candidates (getSettings (sample_world dead_network)) (js ''www.example.co.uk''))
      \<and> requests w' = map url (attempts r)
      \<and> (found r \<longleftrightarrow> list_ex ok (attempts r) \<and> ok (last (attempts r)))"
  using probe_attempts [OF sample_tab_url, of "sample_world dead_network"]
  by (auto simp: sample_world_def)

section \<open>The registrable domain and the order of the hosts\<close>

lemma guess_example_co_uk: "guessRegistrableDomain (js ''www.example.co.uk'') = js ''example.co.uk''"
  by (simp add: guessRegistrableDomain_def slice_last_def MULTIPART_SUFFIXES_def js_def)

lemma guess_example_com: "guessRegistrableDomain (js ''example.com'') = js ''example.com''"
  by (simp add: guessRegistrableDomain_def js_def)

lemma hosts_example_co_uk:
  "hostsToTry (js ''www.example.co.uk'') = [js ''www.example.co.uk'', js ''example.co.uk'']"
  by (simp add: hostsToTry_def guess_example_co_uk js_eq_iff)

lemma expand_defaults:
  "expandCaseVariantsForEndpoint (js ''/.well-known/security.txt'') =
     [js ''/.well-known/security.txt'', js ''/.well-known/Security.txt'',
      js ''/.well-known/security.TXT'', js ''/.well-known/SECURITY.TXT'']"
  "expandCaseVariantsForEndpoint (js ''/security.txt'') =
     [js ''/security.txt'', js ''/Security.txt'', js ''/security.TXT'', js ''/SECURITY.TXT'']"
  by (simp_all add: expandCaseVariantsForEndpoint_def replace_security_txt_def
      ends_security_txt_def uniq_def lowerAscii_def isUpper_def js_def)

lemma normalizePath_fixed:
  assumes "p \<noteq> []" and "hd p = 0x2F" and "\<not> isWhiteSpace (last p)"
  shows "normalizePath p = p"
proof -
  from assms have "trim p = p"
    by (simp add: trim_fixed slash_not_space)
  moreover from assms(1,2) have "startsWith p (js ''/'')"
    by (cases p) (simp_all add: startsWith_def js_def)
  ultimately show ?thesis
    using assms(1) by (simp add: normalizePath_def)
qed

lemma normalize_default_paths: "map normalizePath default_paths = default_paths"
  by (simp add: default_paths_def normalizePath_fixed isWhiteSpace_def js_def)

lemma normalize_default_endpoints: "map normalizePath DEFAULT_ENDPOINTS = DEFAULT_ENDPOINTS"
  by (simp add: DEFAULT_ENDPOINTS_def normalizePath_fixed isWhiteSpace_def js_def)

lemma default_paths_nonempty: "filter (\<lambda>x. x \<noteq> []) default_paths = default_paths"
  by (simp add: default_paths_def js_not_Nil)

lemma default_endpoints_nonempty: "filter (\<lambda>x. x \<noteq> []) DEFAULT_ENDPOINTS = DEFAULT_ENDPOINTS"
  by (simp add: DEFAULT_ENDPOINTS_def js_not_Nil)

lemma expand_default_endpoints:
  "concat (map expandCaseVariantsForEndpoint DEFAULT_ENDPOINTS) = default_paths"
  by (simp add: DEFAULT_ENDPOINTS_def expand_defaults default_paths_def)

lemma build_default:
  "buildCandidateUrlsForHost h DEFAULT_ENDPOINTS False
     = map (\<lambda>p. js ''https://'' @ h @ p) default_paths"
  by (simp add: buildCandidateUrlsForHost_def expand_default_endpoints
      normalize_default_paths default_paths_nonempty)

lemma default_settings:
  assumes "extraEndpoints st = []"
  shows "probe_endpoints st = DEFAULT_ENDPOINTS"
  using assms
  by (simp add: probe_endpoints_def normalize_default_endpoints default_endpoints_nonempty)

lemma default_candidates_example:
  assumes "extraEndpoints st = []" and "\<not> tryHttpFallback st"
  shows "all_candidates st (js ''www.example.co.uk'')
           = map (\<lambda>p. js ''https://'' @ js ''www.example.co.uk'' @ p) default_paths
             @ map (\<lambda>p. js ''https://'' @ js ''example.co.uk'' @ p) default_paths"
  using assms(2)
  by (simp add: all_candidates_def default_settings [OF assms(1)] hosts_example_co_uk
      build_default)

lemma sample_settings:
  "extraEndpoints (getSettings (sample_world net)) = []"
  "\<not> tryHttpFallback (getSettings (sample_world net))"
  by (simp_all add: getSettings_def sample_world_def)

text \<open>
  C7: the heuristic gives \<open>example.co.uk\<close> for \<open>www.example.co.uk\<close>. With no extra
  endpoints and no HTTP fallback in the settings, a probe of a tab on
  \<open>www.example.co.uk\<close> requests an initial segment of the eight HTTPS candidates of
  \<open>www.example.co.uk\<close> followed by the eight of \<open>example.co.uk\<close>, so every candidate of
  the first host comes before any of the second. When the heuristic returns the hostname
  itself, the hosts tried are that host alone, and its candidates are all the candidates.
\<close>

theorem registrable_domain_fallback:
  "guessRegistrableDomain (js ''www.example.co.uk'') = js ''example.co.uk''
   \<and> (extraEndpoints (getSettings w) = [] \<and> \<not> tryHttpFallback (getSettings w)
        \<and> URL_new pf tabUrl0 = Some u \<and> hostname u = js ''www.example.co.uk''
      \<longrightarrow> (\<exists>r w'. probeSecurityTxt pf w tabUrl0 = Inr (r, w')
             \<and> requests w' = requests w @ map url (attempts r)
             \<and> map url (attempts r)
                 = take (length (attempts r))
                     (map (\<lambda>p. js ''https://'' @ js ''www.example.co.uk'' @ p) default_paths
                      @ map (\<lambda>p. js ''https://'' @ js ''example.co.uk'' @ p) default_paths)
             \<and> (\<not> found r \<longrightarrow> length (attempts r) = 16)))
   \<and> (guessRegistrableDomain h = h
      \<longrightarrow> hostsToTry h = [h]
        \<and> all_candidates st h
            = buildCandidateUrlsForHost h (probe_endpoints st) (tryHttpFallback st))"
proof (intro conjI impI)
  show "guessRegistrableDomain (js ''www.example.co.uk'') = js ''example.co.uk''"
    by (rule guess_example_co_uk)
next
  assume a: "extraEndpoints (getSettings w) = [] \<and> \<not> tryHttpFallback (getSettings w)
        \<and> URL_new pf tabUrl0 = Some u \<and> hostname u = js ''www.example.co.uk''"
  then have cands: "all_candidates (getSettings w) (hostname u)
           = map (\<lambda>p. js ''https://'' @ js ''www.example.co.uk'' @ p) default_paths
             @ map (\<lambda>p. js ''https://'' @ js ''example.co.uk'' @ p) default_paths"
    by (simp add: default_candidates_example)
  from a have "URL_new pf tabUrl0 = Some u"
    by simp
  from probe_spec [OF this, of w] obtain r w' where p: "probeSecurityTxt pf w tabUrl0 = Inr (r, w')"
    "map url (attempts r) = take (length (attempts r)) (all_candidates (getSettings w) (hostname u))"
    "requests w' = requests w @ map url (attempts r)"
    "if found r
     then attempts r \<noteq> [] \<and> ok (last (attempts r))
       \<and> list_all (\<lambda>a. \<not> ok a) (butlast (attempts r))
     else map url (attempts r) = all_candidates (getSettings w) (hostname u)
       \<and> list_all (\<lambda>a. \<not> ok a) (attempts r)"
    by blast
  have "\<not> found r \<longrightarrow> length (attempts r) = 16"
  proof
    assume "\<not> found r"
    with p(4) have "map url (attempts r) = all_candidates (getSettings w) (hostname u)"
      by simp
    then have "length (attempts r) = length (all_candidates (getSettings w) (hostname u))"
      by (metis length_map)
    then show "length (attempts r) = 16"
      by (simp add: cands default_paths_def)
  qed
  with p cands show "\<exists>r w'. probeSecurityTxt pf w tabUrl0 = Inr (r, w')
             \<and> requests w' = requests w @ map url (attempts r)
             \<and> map url (attempts r)
                 = take (length (attempts r))
                     (map (\<lambda>p. js ''https://'' @ js ''www.example.co.uk'' @ p) default_paths
                      @ map (\<lambda>p. js ''https://'' @ js ''example.co.uk'' @ p) default_paths)
             \<and> (\<not> found r \<longrightarrow> length (attempts r) = 16)"
    by auto
next
  assume "guessRegistrableDomain h = h"
  then show "hostsToTry h = [h]"
    by (simp add: hostsToTry_def)
next
  assume "guessRegistrableDomain h = h"
  then show "all_candidates st h
            = buildCandidateUrlsForHost h (probe_endpoints st) (tryHttpFallback st)"
    by (simp add: all_candidates_def hostsToTry_def)
qed

theorem registrable_domain_fallback_witness:
  "guessRegistrableDomain (js ''www.example.co.uk'') = js ''example.co.uk''
   \<and> (\<exists>r w'. probeSecurityTxt sample_platform (sample_world dead_network)
                (js ''https://www.example.co.uk/'') = Inr (r, w')
         \<and> requests w' = map url (attempts r)
         \<and> map url (attempts r)
             = take (length (attempts r))
                 (map (\<lambda>p. js ''https://'' @ js ''www.example.co.uk'' @ p) default_paths
                  @ map (\<lambda>p. js ''https://'' @ js ''example.co.uk'' @ p) default_paths))
   \<and> guessRegistrableDomain (js ''example.com'') = js ''example.com''
   \<and> hostsToTry (js ''example.com'') = [js ''example.com'']"
  using registrable_domain_fallback [of "sample_world dead_network" sample_platform
      "js ''https://www.example.co.uk/''"
      "\<lparr>protocol = js ''https:'', hostname = js ''www.example.co.uk''\<rparr>"
      "js ''example.com''" "getSettings (sample_world dead_network)"]
    sample_tab_url guess_example_com sample_settings [of dead_network]
  by (auto simp: sample_world_def)

section \<open>Tabs without an http(s) URL\<close>

text \<open>
  C8: when the URL of the tab is absent, empty or not an http(s) URL, \<open>checkTab\<close> returns
  without a request (the log of requests is unchanged), the cache entry of the tab is the
  not-applicable result (not found, no attempts, the error string), and the badge of the
  tab is the one of the state \<open>no\<close>.
\<close>

theorem checkTab_not_applicable:
  assumes "case tabUrl0 of None \<Rightarrow> True | Some u \<Rightarrow> u = [] \<or> \<not> isHttpUrl pf u"
  shows "\<exists>w' p. checkTab pf w tabId tabUrl0 = Inr w'
           \<and> requests w' = requests w
           \<and> getCachedTabResult w' tabId = Some p
           \<and> \<not> found p \<and> attempts p = [] \<and> foundUrl p = None
           \<and> probe_result.text p = None
           \<and> payload.error p = Some (js ''Not an http(s) URL'')
           \<and> badgeText w' tabId = Some (js ''NO'')
           \<and> badgeBackgroundColor w' tabId = Some (js ''#b71c1c'')"
proof -
  let ?w1 = "setBadge w tabId Checking"
  let ?p = "not_applicable tabUrl0 (clock ?w1)"
  let ?w' = "setBadge (cacheTabResult ?w1 tabId ?p) tabId BadgeNo"
  from assms have "checkTab pf w tabId tabUrl0 = Inr ?w'"
    by (auto simp: checkTab_def Let_def split: option.splits)
  moreover have "requests ?w' = requests w"
    by (simp add: setBadge_def cacheTabResult_def)
  moreover have "getCachedTabResult ?w' tabId = Some ?p"
    by (simp add: getCachedTabResult_def setBadge_def cacheTabResult_def)
  moreover have "\<not> found ?p \<and> attempts ?p = [] \<and> foundUrl ?p = None
      \<and> probe_result.text ?p = None \<and> payload.error ?p = Some (js ''Not an http(s) URL'')"
    by (simp add: not_applicable_def)
  moreover have "badgeText ?w' tabId = Some (js ''NO'')
      \<and> badgeBackgroundColor ?w' tabId = Some (js ''#b71c1c'')"
    by (simp add: setBadge_def)
  ultimately show ?thesis
    by blast
qed

lemma sample_internal_page: "\<not> isHttpUrl sample_platform (js ''chrome://extensions'')"
  by (simp add: isHttpUrl_def sample_platform_def js_eq_iff)

theorem checkTab_not_applicable_witness:
  "\<exists>w' p. checkTab sample_platform (sample_world live_network) 7
             (Some (js ''chrome://extensions'')) = Inr w'
      \<and> requests w' = []
      \<and> getCachedTabResult w' 7 = Some p
      \<and> \<not> found p \<and> attempts p = []
      \<and> payload.error p = Some (js ''Not an http(s) URL'')
      \<and> badgeText w' 7 = Some (js ''NO'')"
proof -
  have "case Some (js ''chrome://extensions'') of
          None \<Rightarrow> True
        | Some u \<Rightarrow> u = [] \<or> \<not> isHttpUrl sample_platform u"
    by (simp add: sample_internal_page)
  from checkTab_not_applicable [OF this, of "sample_world live_network" 7] show ?thesis
    by (auto simp: sample_world_def)
qed

end
